theory Spec2Isabelle
  imports Complex_Main "HOL-Library.AList" "HOL-Library.Multiset"
begin

section \<open>Results and stored values\<close>

text \<open>
  Modelled from the spec: the module \<^verbatim>\<open>result.py\<close> (classes \<^verbatim>\<open>Result\<close>,
  \<^verbatim>\<open>HLSResult\<close>, \<^verbatim>\<open>MerlinResult\<close> and the enumeration \<^verbatim>\<open>Result.RetCode\<close>) is
  imported by \<^verbatim>\<open>database.py\<close> but is not among the sources. The spec gives the return
  code as \<^verbatim>\<open>enum{VALID, DUPLICATED, ...}\<close>; \<^verbatim>\<open>database.py\<close> only ever compares it
  with \<^verbatim>\<open>DUPLICATED\<close>.
\<close>

datatype RetCode = VALID | DUPLICATED | OTHER_CODE

text \<open>
  Modelled from the spec: the class of a result object. \<^verbatim>\<open>database.py\<close> tests
  \<^verbatim>\<open>isinstance(r, Result)\<close>, \<^verbatim>\<open>isinstance(r, HLSResult)\<close> and
  \<^verbatim>\<open>isinstance(r, MerlinResult)\<close>; the two subclasses are siblings below \<^verbatim>\<open>Result\<close>.
\<close>

datatype result_class = BaseResult | MerlinResult | HLSResult

text \<open>
  Modelled from the spec: the fields of a result that \<^verbatim>\<open>database.py\<close> reads
  (\<^verbatim>\<open>point\<close>, \<^verbatim>\<open>ret_code\<close>, \<^verbatim>\<open>valid\<close>, \<^verbatim>\<open>quality\<close>, \<^verbatim>\<open>code_hash\<close>). The type
  \<open>'p\<close> is the design point, whose definition is outside the sources. The quality is
  a Python float; it is a real number here, so not-a-number is not covered.
\<close>

record 'p result =
  cls :: result_class
  point :: "'p option"
  ret_code :: RetCode
  valid :: bool
  quality :: real
  code_hash :: "string option"

text \<open>
  The values a caller hands to \<^verbatim>\<open>commit\<close> have the type \<^verbatim>\<open>Any\<close>. The model
  distinguishes what the code distinguishes: a Python \<^verbatim>\<open>bool\<close> (\<^verbatim>\<open>PickleDatabase.query\<close>
  tests for it), a \<^verbatim>\<open>Result\<close> instance, the text \<^verbatim>\<open>jsonpickle.encode\<close> yields for
  a value (\<open>PyJson\<close>), and any other string (\<open>PyStr\<close>, which is not the encoding of anything).
\<close>

datatype 'p pyval =
    PyBool bool
  | PyStr string
  | PyJson "'p pyval"
  | PyResult "'p result"

datatype exn =
    RuntimeError | TypeError | ValueError | AssertionError
  | UnpicklingError | EOFError | AttributeError | DataError

text \<open>
  What a call does: it returns a value, raises an exception that nobody caught, or
  ends the process through \<^verbatim>\<open>sys.exit(n)\<close>. Every operation returns the state it leaves
  behind beside its outcome.
\<close>

datatype 'a outcome = Return 'a | Raise exn | Exit nat

definition bind ::
  "'a outcome \<times> 's \<Rightarrow> ('a \<Rightarrow> 's \<Rightarrow> 'b outcome \<times> 's) \<Rightarrow> 'b outcome \<times> 's" where
  "bind m f =
     (case m of
        (Return a, s) \<Rightarrow> f a s
      | (Raise e, s) \<Rightarrow> (Raise e, s)
      | (Exit n, s) \<Rightarrow> (Exit n, s))"

datatype level = INFO | WARNING | ERROR

section \<open>The best cache\<close>

text \<open>
  An element of the best cache is the tuple \<^verbatim>\<open>(quality, timestamp, result)\<close>.
\<close>

type_synonym 'p entry = "real \<times> real \<times> 'p result"

definition entry_quality :: "'p entry \<Rightarrow> real" where
  "entry_quality e = fst e"

definition entry_time :: "'p entry \<Rightarrow> real" where
  "entry_time e = fst (snd e)"

definition entry_result :: "'p entry \<Rightarrow> 'p result" where
  "entry_result e = snd (snd e)"


definition tuple_lt :: "'p entry \<Rightarrow> 'p entry \<Rightarrow> exn + bool" where
  "tuple_lt a b =
     (if entry_quality a \<noteq> entry_quality b then Inr (entry_quality a < entry_quality b)
      else if entry_time a \<noteq> entry_time b then Inr (entry_time a < entry_time b)
      else Inl TypeError)"

text \<open>
  \<^verbatim>\<open>siftdown(heap, 0, pos)\<close>: the entry at \<open>pos\<close> moves towards the root while it is
  lower than its parent. The result is the exception of a comparison, if one raised,
  and the list as it was left. Both callers pass a place of the list; for any other
  place the list is left alone.
\<close>

function siftdown :: "'p entry list \<Rightarrow> nat \<Rightarrow> exn option \<times> 'p entry list" where
  "siftdown heap pos =
     (if pos = 0 \<or> length heap \<le> pos then (None, heap)
      else
        (case tuple_lt (heap ! pos) (heap ! ((pos - 1) div 2)) of
           Inl err \<Rightarrow> (Some err, heap)
         | Inr lt \<Rightarrow>
             if lt then
               siftdown (heap[(pos - 1) div 2 := heap ! pos, pos := heap ! ((pos - 1) div 2)])
                 ((pos - 1) div 2)
             else (None, heap)))"
  by pat_completeness auto

termination siftdown
  by (relation "measure snd") auto

declare siftdown.simps [simp del]

text \<open>\<^verbatim>\<open>heappush\<close>: the item is appended and sifted from the last place.\<close>

definition heappush :: "'p entry \<Rightarrow> 'p entry list \<Rightarrow> exn option \<times> 'p entry list" where
  "heappush item heap = siftdown (heap @ [item]) (length heap)"

text \<open>
  \<^verbatim>\<open>siftup(heap, pos)\<close>: the lower child moves up until a leaf is reached, then the
  entry that arrived at the leaf is sifted back towards the root. \<open>smaller_child\<close> is
  the place of the lower child of \<open>pos\<close>: the left one when it is lower than the right
  one or the only one.
\<close>

definition smaller_child :: "'p entry list \<Rightarrow> nat \<Rightarrow> exn + nat" where
  "smaller_child heap pos =
     (if 2 * pos + 2 < length heap then
        (case tuple_lt (heap ! (2 * pos + 1)) (heap ! (2 * pos + 2)) of
           Inl err \<Rightarrow> Inl err
         | Inr lt \<Rightarrow> Inr (if lt then 2 * pos + 1 else 2 * pos + 2))
      else Inr (2 * pos + 1))"

lemma smaller_child_bounds:
  "smaller_child heap pos = Inr c \<Longrightarrow> pos < length heap div 2 \<Longrightarrow> pos < c \<and> c < length heap"
  by (auto simp: smaller_child_def split: if_splits sum.splits)

function siftup :: "'p entry list \<Rightarrow> nat \<Rightarrow> exn option \<times> 'p entry list" where
  "siftup heap pos =
     (if pos < length heap div 2 then
        (case smaller_child heap pos of
           Inl err \<Rightarrow> (Some err, heap)
         | Inr childpos \<Rightarrow>
             siftup (heap[childpos := heap ! pos, pos := heap ! childpos]) childpos)
      else siftdown heap pos)"
  by pat_completeness auto

termination siftup
proof (relation "measure (\<lambda>(heap, pos). length heap - pos)")
  show "wf (measure (\<lambda>(heap :: 'p entry list, pos). length heap - pos))" by simp
next
  fix heap :: "'p entry list" and pos c
  assume "pos < length heap div 2" and "smaller_child heap pos = Inr c"
  then have "pos < c \<and> c < length heap" by (intro smaller_child_bounds)
  then show "((heap[c := heap ! pos, pos := heap ! c], c), (heap, pos))
               \<in> measure (\<lambda>(heap, pos). length heap - pos)"
    by auto
qed

declare siftup.simps [simp del]

text \<open>
  \<^verbatim>\<open>heappop\<close> of a list that is not empty: the last entry takes the place of the root,
  which is returned once the heap is in order again. When a comparison raises, the
  root is lost: it is neither returned nor in the list.
\<close>

definition heappop :: "'p entry list \<Rightarrow> (exn + 'p entry) \<times> 'p entry list" where
  "heappop heap =
     (let lastelt = last heap; rest = butlast heap in
      if rest = [] then (Inr lastelt, [])
      else
        (case siftup (rest[0 := lastelt]) 0 of
           (Some err, heap') \<Rightarrow> (Inl err, heap')
         | (None, heap') \<Rightarrow> (Inr (rest ! 0), heap')))"

text \<open>\<^verbatim>\<open>PriorityQueue.put\<close> on a queue without a bound never waits.\<close>

definition pq_put :: "'p entry \<Rightarrow> 'p entry list \<Rightarrow> exn option \<times> 'p entry list" where
  "pq_put e q = heappush e q"

text \<open>\<^verbatim>\<open>get\<close> on an empty queue blocks for ever: the model gives \<open>None\<close>.\<close>

definition pq_get :: "'p entry list \<Rightarrow> ((exn + 'p entry) \<times> 'p entry list) option" where
  "pq_get q = (if q = [] then None else Some (heappop q))"

lemma length_siftdown: "length (snd (siftdown heap pos)) = length heap"
proof (induction heap pos rule: siftdown.induct)
  case (1 heap pos)
  then show ?case
    by (subst siftdown.simps) (auto split: sum.splits)
qed

lemma length_siftup: "length (snd (siftup heap pos)) = length heap"
proof (induction heap pos rule: siftup.induct)
  case (1 heap pos)
  then show ?case
    by (subst siftup.simps) (auto simp: length_siftdown split: sum.splits)
qed

lemma length_heappop: "q \<noteq> [] \<Longrightarrow> length (snd (heappop q)) = length q - 1"
proof -
  assume ne: "q \<noteq> []"
  have "length (snd (siftup ((butlast q)[0 := last q]) 0)) = length q - 1"
    by (simp add: length_siftup)
  moreover have "butlast q = [] \<Longrightarrow> length q - 1 = 0"
    using ne by (cases q rule: rev_cases) auto
  ultimately show ?thesis
    by (auto simp: heappop_def Let_def split: prod.splits option.splits)
qed

text \<open>
  Modelled from the spec: \<^verbatim>\<open>drainBestN\<close> is the consumer of the best cache, outside
  \<^verbatim>\<open>database.py\<close>: "repeatedly pops the minimum". \<open>drain\<close> pops until the queue is
  empty and lists the entries in the order they came out.
\<close>

function drain :: "'p entry list \<Rightarrow> exn + 'p entry list" where
  "drain q =
     (case pq_get q of
        None \<Rightarrow> Inr []
      | Some (Inl err, q') \<Rightarrow> Inl err
      | Some (Inr m, q') \<Rightarrow>
          (case drain q' of Inl err \<Rightarrow> Inl err | Inr ms \<Rightarrow> Inr (m # ms)))"
  by pat_completeness auto

termination drain
proof (relation "measure length")
  show "wf (measure length)" by simp
next
  fix q :: "'p entry list" and x2 x y q' m
  assume "pq_get q = Some x2" and "(x, q') = x2" and "x = Inr m"
  then have ne: "q \<noteq> []" and q': "q' = snd (heappop q)"
    by (auto simp: pq_get_def split: if_splits)
  have "length q' = length q - 1"
    unfolding q' using ne by (rule length_heappop)
  moreover have "0 < length q" using ne by simp
  ultimately show "(q', q) \<in> measure length" by simp
qed

declare drain.simps [simp del]

section \<open>The database\<close>

text \<open>
  The attributes of a \<^verbatim>\<open>Database\<close> object: the adapter's own handle (\<open>database\<close>), the
  best cache and the code hash map. \<open>logged\<close> and \<open>stdout\<close> collect what the logger and
  \<^verbatim>\<open>print\<close> received. \<^verbatim>\<open>time()\<close> reads the wall clock, which is outside the program:
  a clock is a function from the number of the reading to the time read, and \<open>ticks\<close>
  counts the readings taken so far.
\<close>

record ('b, 'p) Database =
  database :: 'b
  best_cache :: "'p entry list"
  code_hash_map :: "string \<rightharpoonup> string"
  logged :: "(level \<times> string) list"
  stdout :: "string list"
  ticks :: nat

text \<open>
  The methods the base class leaves to an adapter. The write methods act on the
  adapter's handle and return the handle they leave behind; the read methods read the
  handle and return, beside their outcome, the lines they sent to the logger.
\<close>

type_synonym log_line = "level \<times> string"

record ('b, 'p) adapter =
  count_impl :: "'b \<Rightarrow> nat"
  query_keys_impl :: "'b \<Rightarrow> string list"
  query_impl :: "string \<Rightarrow> 'b \<Rightarrow> 'p pyval option outcome \<times> log_line list"
  batch_query_impl :: "string list \<Rightarrow> 'b \<Rightarrow> 'p pyval option list outcome \<times> log_line list"
  commit_impl :: "string \<Rightarrow> 'p pyval \<Rightarrow> 'b \<Rightarrow> bool outcome \<times> 'b"
  batch_commit_impl :: "(string \<times> 'p pyval) list \<Rightarrow> 'b \<Rightarrow> int outcome \<times> 'b"

definition log_error :: "string \<Rightarrow> ('b, 'p) Database \<Rightarrow> ('b, 'p) Database" where
  "log_error msg db = db\<lparr>logged := logged db @ [(ERROR, msg)]\<rparr>"

definition log_info :: "string \<Rightarrow> ('b, 'p) Database \<Rightarrow> ('b, 'p) Database" where
  "log_info msg db = db\<lparr>logged := logged db @ [(INFO, msg)]\<rparr>"

definition print_line :: "string \<Rightarrow> ('b, 'p) Database \<Rightarrow> ('b, 'p) Database" where
  "print_line msg db = db\<lparr>stdout := stdout db @ [msg]\<rparr>"

text \<open>\<^verbatim>\<open>time()\<close>: the next reading of the clock.\<close>

definition read_clock ::
  "(nat \<Rightarrow> real) \<Rightarrow> ('b, 'p) Database \<Rightarrow> real \<times> ('b, 'p) Database" where
  "read_clock clock db = (clock (ticks db), db\<lparr>ticks := Suc (ticks db)\<rparr>)"

text \<open>\<^verbatim>\<open>query\<close> and \<^verbatim>\<open>batch_query\<close> of an adapter, run on the object.\<close>

definition run_read ::
  "('b \<Rightarrow> 'a outcome \<times> log_line list) \<Rightarrow> ('b, 'p) Database \<Rightarrow> 'a outcome \<times> ('b, 'p) Database" where
  "run_read f db =
     (case f (database db) of (out, msgs) \<Rightarrow> (out, db\<lparr>logged := logged db @ msgs\<rparr>))"

definition query ::
  "('b, 'p) adapter \<Rightarrow> string \<Rightarrow> ('b, 'p) Database
     \<Rightarrow> 'p pyval option outcome \<times> ('b, 'p) Database" where
  "query A key db = run_read (query_impl A key) db"

definition batch_query ::
  "('b, 'p) adapter \<Rightarrow> string list \<Rightarrow> ('b, 'p) Database
     \<Rightarrow> 'p pyval option list outcome \<times> ('b, 'p) Database" where
  "batch_query A keys db = run_read (batch_query_impl A keys) db"

text \<open>\<^verbatim>\<open>Database.query_all\<close>\<close>

definition query_all ::
  "('b, 'p) adapter \<Rightarrow> ('b, 'p) Database \<Rightarrow> 'p pyval list outcome \<times> ('b, 'p) Database" where
  "query_all A db =
     bind (batch_query A (query_keys_impl A (database db)) db)
       (\<lambda>vs db1. (Return (List.map_filter (\<lambda>v. v) vs), db1))"

text \<open>
  \<^verbatim>\<open>Database.init_best_cache\<close>: the list comprehension keeps the valid
  \<^verbatim>\<open>HLSResult\<close> instances, the loop puts those that are not \<^verbatim>\<open>DUPLICATED\<close>. The put
  is not guarded here: an exception of the queue leaves the method as it is.
\<close>

fun hls_valid_results :: "'p pyval list \<Rightarrow> 'p result list" where
  "hls_valid_results [] = []"
| "hls_valid_results (PyResult r # vs) =
     (if cls r = HLSResult \<and> valid r then r # hls_valid_results vs else hls_valid_results vs)"
| "hls_valid_results (v # vs) = hls_valid_results vs"

fun init_best_loop ::
  "(nat \<Rightarrow> real) \<Rightarrow> 'p result list \<Rightarrow> ('b, 'p) Database \<Rightarrow> unit outcome \<times> ('b, 'p) Database" where
  "init_best_loop clock [] db = (Return (), db)"
| "init_best_loop clock (r # rs) db =
     (if ret_code r \<noteq> DUPLICATED then
        (case read_clock clock db of
           (now, db1) \<Rightarrow>
             (case pq_put (quality r, now, r) (best_cache db1) of
                (Some err, q) \<Rightarrow> (Raise err, db1\<lparr>best_cache := q\<rparr>)
              | (None, q) \<Rightarrow> init_best_loop clock rs (db1\<lparr>best_cache := q\<rparr>)))
      else init_best_loop clock rs db)"

definition init_best_cache ::
  "('b, 'p) adapter \<Rightarrow> (nat \<Rightarrow> real) \<Rightarrow> ('b, 'p) Database \<Rightarrow> unit outcome \<times> ('b, 'p) Database" where
  "init_best_cache A clock db =
     (if count_impl A (database db) = 0 then (Return (), db)
      else bind (query_all A db) (\<lambda>vs db1. init_best_loop clock (hls_valid_results vs) db1))"

text \<open>
  \<^verbatim>\<open>Database.init_code_hash_map\<close>. \<^verbatim>\<open>gen_key_from_design_point\<close> comes from
  \<^verbatim>\<open>parameter.py\<close>, which is not among the sources: it is the parameter \<open>gen_key\<close>.
\<close>

fun merlin_results :: "'p pyval list \<Rightarrow> 'p result list" where
  "merlin_results [] = []"
| "merlin_results (PyResult r # vs) =
     (if cls r = MerlinResult then r # merlin_results vs else merlin_results vs)"
| "merlin_results (v # vs) = merlin_results vs"

fun init_code_hash_loop ::
  "('p \<Rightarrow> string) \<Rightarrow> 'p result list \<Rightarrow> ('b, 'p) Database \<Rightarrow> unit outcome \<times> ('b, 'p) Database" where
  "init_code_hash_loop gen_key [] db = (Return (), db)"
| "init_code_hash_loop gen_key (r # rs) db =
     (case code_hash r of
        None \<Rightarrow> init_code_hash_loop gen_key rs db
      | Some h \<Rightarrow>
          if ret_code r \<noteq> DUPLICATED then
            (case point r of
               None \<Rightarrow> (Raise AssertionError, db)
             | Some p \<Rightarrow>
                 init_code_hash_loop gen_key rs
                   (db\<lparr>code_hash_map := (code_hash_map db)(h \<mapsto> gen_key p)\<rparr>))
          else init_code_hash_loop gen_key rs db)"

definition init_code_hash_map ::
  "('b, 'p) adapter \<Rightarrow> ('p \<Rightarrow> string) \<Rightarrow> ('b, 'p) Database \<Rightarrow> unit outcome \<times> ('b, 'p) Database" where
  "init_code_hash_map A gen_key db =
     (if count_impl A (database db) = 0 then (Return (), db)
      else bind (query_all A db) (\<lambda>vs db1. init_code_hash_loop gen_key (merlin_results vs) db1))"

text \<open>\<^verbatim>\<open>Database.add_code_hash\<close>\<close>

definition add_code_hash ::
  "string \<Rightarrow> string \<Rightarrow> ('b, 'p) Database \<Rightarrow> string option \<times> ('b, 'p) Database" where
  "add_code_hash h key db =
     (case code_hash_map db h of
        Some owner \<Rightarrow> (Some owner, db)
      | None \<Rightarrow> (None, db\<lparr>code_hash_map := (code_hash_map db)(h \<mapsto> key)\<rparr>))"

text \<open>
  \<^verbatim>\<open>Database.update_best\<close>: the timestamp is read before the put; an exception of the
  put is logged and replaced by \<^verbatim>\<open>RuntimeError\<close>.
\<close>

definition update_best ::
  "(nat \<Rightarrow> real) \<Rightarrow> 'p result \<Rightarrow> ('b, 'p) Database \<Rightarrow> unit outcome \<times> ('b, 'p) Database" where
  "update_best clock r db =
     (if ret_code r \<noteq> DUPLICATED then
        (case read_clock clock db of
           (now, db1) \<Rightarrow>
             (case pq_put (quality r, now, r) (best_cache db1) of
                (Some err, q) \<Rightarrow>
                  (Raise RuntimeError,
                   log_error ''Failed to update best cache: %s'' (db1\<lparr>best_cache := q\<rparr>))
              | (None, q) \<Rightarrow> (Return (), db1\<lparr>best_cache := q\<rparr>)))
      else (Return (), db))"

text \<open>\<^verbatim>\<open>Database.commit\<close>\<close>

definition fatal :: "('b, 'p) Database \<Rightarrow> 'a outcome \<times> ('b, 'p) Database" where
  "fatal db =
     (Exit 1,
      print_line ''Error: Database connection error''
        (log_error ''Failed to commit results to the database'' db))"

definition commit ::
  "('b, 'p) adapter \<Rightarrow> (nat \<Rightarrow> real) \<Rightarrow> string \<Rightarrow> 'p pyval \<Rightarrow> ('b, 'p) Database
     \<Rightarrow> unit outcome \<times> ('b, 'p) Database" where
  "commit A clock key v db =
     (case commit_impl A key v (database db) of
        (Raise e, b) \<Rightarrow> (Raise e, db\<lparr>database := b\<rparr>)
      | (Exit n, b) \<Rightarrow> (Exit n, db\<lparr>database := b\<rparr>)
      | (Return ok, b) \<Rightarrow>
          if \<not> ok then fatal (db\<lparr>database := b\<rparr>)
          else (case v of
                  PyResult r \<Rightarrow> update_best clock r (db\<lparr>database := b\<rparr>)
                | _ \<Rightarrow> (Return (), db\<lparr>database := b\<rparr>)))"

text \<open>\<^verbatim>\<open>Database.batch_commit\<close>: the loop over the pairs after the write.\<close>

fun update_best_loop ::
  "(nat \<Rightarrow> real) \<Rightarrow> (string \<times> 'p pyval) list \<Rightarrow> ('b, 'p) Database
     \<Rightarrow> unit outcome \<times> ('b, 'p) Database" where
  "update_best_loop clock [] db = (Return (), db)"
| "update_best_loop clock ((k, PyResult r) # ps) db =
     bind (update_best clock r db) (\<lambda>u db1. update_best_loop clock ps db1)"
| "update_best_loop clock ((k, v) # ps) db = update_best_loop clock ps db"

definition batch_commit ::
  "('b, 'p) adapter \<Rightarrow> (nat \<Rightarrow> real) \<Rightarrow> (string \<times> 'p pyval) list \<Rightarrow> ('b, 'p) Database
     \<Rightarrow> unit outcome \<times> ('b, 'p) Database" where
  "batch_commit A clock pairs db =
     (case batch_commit_impl A pairs (database db) of
        (Raise e, b) \<Rightarrow> (Raise e, db\<lparr>database := b\<rparr>)
      | (Exit n, b) \<Rightarrow> (Exit n, db\<lparr>database := b\<rparr>)
      | (Return n, b) \<Rightarrow>
          if n \<noteq> int (length pairs) then fatal (db\<lparr>database := b\<rparr>)
          else update_best_loop clock pairs (db\<lparr>database := b\<rparr>))"

section \<open>The Redis adapter\<close>

text \<open>
  The bytes a Redis hash field holds, by what \<^verbatim>\<open>pickle.loads\<close> does with them:
  \<open>Pickled v\<close> is \<^verbatim>\<open>pickle.dumps(v)\<close> and loads back to \<open>v\<close> (the round trip the spec
  assumes); \<open>EmptyBytes\<close> is \<^verbatim>\<open>b''\<close>, which Python takes for false; \<open>Corrupt e\<close> are
  bytes on which \<^verbatim>\<open>pickle.loads\<close> raises the exception \<open>e\<close>.
\<close>

datatype 'p blob = Pickled "'p pyval" | EmptyBytes | Corrupt exn

definition pickle_dumps :: "'p pyval \<Rightarrow> 'p blob" where
  "pickle_dumps v = Pickled v"

fun pickle_loads :: "'p blob \<Rightarrow> 'p pyval outcome" where
  "pickle_loads (Pickled v) = Return v"
| "pickle_loads EmptyBytes = Raise EOFError"
| "pickle_loads (Corrupt e) = Raise e"

text \<open>The file at \<^verbatim>\<open>db_file_path\<close>: absent, a pickled dictionary, or unreadable bytes.\<close>

datatype 'p dump_file = NoFile | Dump "(string \<times> 'p blob) list" | BadFile exn

text \<open>
  The handle of the Redis adapter: the hash stored under \<^verbatim>\<open>db_id\<close>, its fields in the
  order they were first written (a field written again keeps its place), and the dump
  file. The Redis client is outside the sources: of its own exceptions the model has
  the \<^verbatim>\<open>DataError\<close> with which \<^verbatim>\<open>hmset\<close> refuses an empty mapping; a lost connection
  is not part of the model.
\<close>

record 'p redis =
  hash_fields :: "(string \<times> 'p blob) list"
  db_file :: "'p dump_file"

definition hset :: "string \<Rightarrow> 'p blob \<Rightarrow> 'p redis \<Rightarrow> 'p redis" where
  "hset key b rd = rd\<lparr>hash_fields := AList.update key b (hash_fields rd)\<rparr>"

text \<open>The dictionary a comprehension or a load builds: a later pair replaces the value
  of an earlier pair with the same key.\<close>

definition dict_of :: "('k \<times> 'v) list \<Rightarrow> ('k \<times> 'v) list" where
  "dict_of ps = fold (\<lambda>(k, v) d. AList.update k v d) ps []"

text \<open>\<^verbatim>\<open>hmset\<close> of the client: an empty mapping is refused before anything is sent.\<close>

definition hmset :: "(string \<times> 'p blob) list \<Rightarrow> 'p redis \<Rightarrow> exn + 'p redis" where
  "hmset data rd =
     (if data = [] then Inl DataError else Inr (fold (\<lambda>(k, b) r. hset k b r) data rd))"

definition hget :: "'p redis \<Rightarrow> string \<Rightarrow> 'p blob option" where
  "hget rd key = map_of (hash_fields rd) key"

definition hexists :: "'p redis \<Rightarrow> string \<Rightarrow> bool" where
  "hexists rd key = (map_of (hash_fields rd) key \<noteq> None)"

definition hmget :: "'p redis \<Rightarrow> string list \<Rightarrow> 'p blob option list" where
  "hmget rd keys = map (hget rd) keys"

text \<open>
  The server lists the fields of a hash in an order of its own: a small hash in the
  order in which the fields were first written, a larger one in the order of its hash
  table, which changes when the table grows. That order is a parameter of the model:
  \<open>rank n key\<close> is the place the server gives to the field \<open>key\<close> in a hash of \<open>n\<close>
  fields, and fields of the same rank are listed in the order in which they were
  first written. With \<open>\<lambda>n key. 0\<close> every hash is listed in the order in which its fields
  were first written.
\<close>

type_synonym rank = "nat \<Rightarrow> string \<Rightarrow> nat"

text \<open>\<^verbatim>\<open>hgetall\<close>: the fields with their values, as the server lists them.\<close>

definition hgetall :: "rank \<Rightarrow> 'p redis \<Rightarrow> (string \<times> 'p blob) list" where
  "hgetall rank rd =
     sort_key (\<lambda>(key, b). rank (length (hash_fields rd)) key) (hash_fields rd)"

text \<open>\<^verbatim>\<open>hkeys\<close>: the names of the fields, in the same order.\<close>

definition hkeys :: "rank \<Rightarrow> 'p redis \<Rightarrow> string list" where
  "hkeys rank rd = map fst (hgetall rank rd)"

text \<open>Python's truth value of what \<^verbatim>\<open>hget\<close> returned: \<^verbatim>\<open>None\<close> and \<^verbatim>\<open>b''\<close> are false.\<close>

fun truthy :: "'p blob option \<Rightarrow> bool" where
  "truthy None = False"
| "truthy (Some EmptyBytes) = False"
| "truthy (Some b) = True"

text \<open>
  \<^verbatim>\<open>RedisDatabase.persist\<close>: the dictionary \<^verbatim>\<open>dump_db\<close> has, for every key of
  \<^verbatim>\<open>hgetall\<close>, what \<^verbatim>\<open>hget\<close> returns for it. (\<^verbatim>\<open>hget\<close> would return \<^verbatim>\<open>None\<close> for a field
  that is not there, which cannot happen for a key the server has just listed.) The
  write of the file is taken to succeed.
\<close>

definition dump_db :: "rank \<Rightarrow> 'p redis \<Rightarrow> (string \<times> 'p blob) list" where
  "dump_db rank rd =
     List.map_filter
       (\<lambda>key. case hget rd key of Some b \<Rightarrow> Some (key, b) | None \<Rightarrow> None)
       (map fst (hgetall rank rd))"

definition redis_persist :: "rank \<Rightarrow> 'p redis \<Rightarrow> bool \<times> 'p redis" where
  "redis_persist rank rd = (True, rd\<lparr>db_file := Dump (dump_db rank rd)\<rparr>)"

text \<open>
  \<^verbatim>\<open>RedisDatabase.query\<close>: only \<^verbatim>\<open>ValueError\<close> is caught around \<^verbatim>\<open>pickle.loads\<close>.
\<close>

definition redis_loads_guarded ::
  "string \<Rightarrow> 'p blob \<Rightarrow> 'p pyval option outcome \<times> log_line list" where
  "redis_loads_guarded key b =
     (case pickle_loads b of
        Return v \<Rightarrow> (Return (Some v), [])
      | Raise e \<Rightarrow>
          if e = ValueError
          then (Return None, [(ERROR, ''Failed to deserialize the result of '' @ key)])
          else (Raise e, [])
      | Exit n \<Rightarrow> (Exit n, []))"

definition redis_query ::
  "string \<Rightarrow> 'p redis \<Rightarrow> 'p pyval option outcome \<times> log_line list" where
  "redis_query key rd =
     (if \<not> hexists rd key then (Return None, [])
      else (case hget rd key of
              None \<Rightarrow> (Return None, [])
            | Some b \<Rightarrow>
                if truthy (Some b) then redis_loads_guarded key b else (Return None, [])))"

text \<open>\<^verbatim>\<open>RedisDatabase.batch_query\<close>: the loop over \<^verbatim>\<open>zip(keys, hmget(keys))\<close>.\<close>

fun redis_batch_loop ::
  "(string \<times> 'p blob option) list \<Rightarrow> 'p pyval option list \<Rightarrow> log_line list
     \<Rightarrow> 'p pyval option list outcome \<times> log_line list" where
  "redis_batch_loop [] data msgs = (Return data, msgs)"
| "redis_batch_loop ((key, pickled_obj) # rest) data msgs =
     (case pickled_obj of
        None \<Rightarrow> redis_batch_loop rest (data @ [None]) msgs
      | Some b \<Rightarrow>
          if truthy (Some b) then
            (case redis_loads_guarded key b of
               (Return v, m) \<Rightarrow> redis_batch_loop rest (data @ [v]) (msgs @ m)
             | (Raise e, m) \<Rightarrow> (Raise e, msgs @ m)
             | (Exit n, m) \<Rightarrow> (Exit n, msgs @ m))
          else redis_batch_loop rest (data @ [None]) msgs)"

definition redis_batch_query ::
  "string list \<Rightarrow> 'p redis \<Rightarrow> 'p pyval option list outcome \<times> log_line list" where
  "redis_batch_query keys rd =
     (if keys = [] then (Return [], [])
      else redis_batch_loop (zip keys (hmget rd keys)) [] [])"

definition redis_query_keys :: "rank \<Rightarrow> 'p redis \<Rightarrow> string list" where
  "redis_query_keys rank rd = hkeys rank rd"

definition redis_count :: "rank \<Rightarrow> 'p redis \<Rightarrow> nat" where
  "redis_count rank rd = length (hkeys rank rd)"

text \<open>\<^verbatim>\<open>RedisDatabase.commit_impl\<close> and \<^verbatim>\<open>RedisDatabase.batch_commit_impl\<close>\<close>

definition redis_commit_impl ::
  "rank \<Rightarrow> string \<Rightarrow> 'p pyval \<Rightarrow> 'p redis \<Rightarrow> bool outcome \<times> 'p redis" where
  "redis_commit_impl rank key v rd =
     (let pickled_result = pickle_dumps v;
          rd1 = hset key pickled_result rd;
          rd2 = snd (redis_persist rank rd1)
      in (Return True, rd2))"

definition redis_batch_commit_impl ::
  "rank \<Rightarrow> (string \<times> 'p pyval) list \<Rightarrow> 'p redis \<Rightarrow> int outcome \<times> 'p redis" where
  "redis_batch_commit_impl rank pairs rd =
     (let data = dict_of (map (\<lambda>(key, v). (key, pickle_dumps v)) pairs) in
      case hmset data rd of
        Inl err \<Rightarrow> (Raise err, rd)
      | Inr rd1 \<Rightarrow>
          (let rd2 = snd (redis_persist rank rd1)
           in (Return (int (length data)), rd2)))"

text \<open>The adapter on a server that lists its fields by \<open>rank\<close>.\<close>

definition RedisDatabase :: "rank \<Rightarrow> ('p redis, 'p) adapter" where
  "RedisDatabase rank =
     \<lparr>count_impl = redis_count rank,
      query_keys_impl = redis_query_keys rank,
      query_impl = redis_query,
      batch_query_impl = redis_batch_query,
      commit_impl = redis_commit_impl rank,
      batch_commit_impl = redis_batch_commit_impl rank\<rparr>"

text \<open>
  \<^verbatim>\<open>RedisDatabase.load\<close>: only \<^verbatim>\<open>ValueError\<close> is caught around \<^verbatim>\<open>pickle.load\<close>, and
  nothing is caught around \<^verbatim>\<open>hmset\<close>, which comes after the line for the logger.
\<close>

definition redis_load_file ::
  "('p redis, 'p) Database \<Rightarrow> unit outcome \<times> ('p redis, 'p) Database" where
  "redis_load_file db =
     (case db_file (database db) of
        NoFile \<Rightarrow> (Return (), db)
      | BadFile e \<Rightarrow>
          if e = ValueError
          then (Exit 1, print_line ''Failed to initialize the database'' db)
          else (Raise e, db)
      | Dump data \<Rightarrow>
          (case hmset data (database db) of
             Inl err \<Rightarrow> (Raise err, log_info ''Load %d data from an existing database'' db)
           | Inr rd \<Rightarrow>
               (Return (),
                (log_info ''Load %d data from an existing database'' db)\<lparr>database := rd\<rparr>)))"

definition redis_load ::
  "rank \<Rightarrow> ('p \<Rightarrow> string) \<Rightarrow> (nat \<Rightarrow> real) \<Rightarrow> ('p redis, 'p) Database
     \<Rightarrow> unit outcome \<times> ('p redis, 'p) Database" where
  "redis_load rank gen_key clock db =
     bind (redis_load_file db) (\<lambda>u db1.
       bind (init_best_cache (RedisDatabase rank) clock db1) (\<lambda>u db2.
         init_code_hash_map (RedisDatabase rank) gen_key db2))"

section \<open>The PickleDB adapter\<close>

text \<open>
  The handle is the dictionary of the \<^verbatim>\<open>pickledb\<close> library, its keys in insertion
  order. \<^verbatim>\<open>get\<close> answers \<^verbatim>\<open>False\<close> for a key it does not hold. The lock each method
  takes and releases has no effect on one thread and is left out.
\<close>

type_synonym 'p pickledb = "(string \<times> 'p pyval) list"

definition pickledb_get :: "'p pickledb \<Rightarrow> string \<Rightarrow> 'p pyval" where
  "pickledb_get d key = (case map_of d key of Some v \<Rightarrow> v | None \<Rightarrow> PyBool False)"

definition pickledb_set :: "string \<Rightarrow> 'p pyval \<Rightarrow> 'p pickledb \<Rightarrow> 'p pickledb" where
  "pickledb_set key v d = AList.update key v d"

definition pickledb_getall :: "'p pickledb \<Rightarrow> string list" where
  "pickledb_getall d = map fst d"

text \<open>\<^verbatim>\<open>None if isinstance(value, bool) else value\<close>\<close>

fun none_if_bool :: "'p pyval \<Rightarrow> 'p pyval option" where
  "none_if_bool (PyBool b) = None"
| "none_if_bool v = Some v"

definition pickle_query ::
  "string \<Rightarrow> 'p pickledb \<Rightarrow> 'p pyval option outcome \<times> log_line list" where
  "pickle_query key d = (Return (none_if_bool (pickledb_get d key)), [])"

definition pickle_batch_query ::
  "string list \<Rightarrow> 'p pickledb \<Rightarrow> 'p pyval option list outcome \<times> log_line list" where
  "pickle_batch_query keys d =
     (if keys = [] then (Return [], [])
      else (Return (map (\<lambda>key. none_if_bool (pickledb_get d key)) keys), []))"

definition pickle_query_keys :: "'p pickledb \<Rightarrow> string list" where
  "pickle_query_keys d = pickledb_getall d"

definition pickle_count :: "'p pickledb \<Rightarrow> nat" where
  "pickle_count d = length d"

definition pickle_commit_impl ::
  "string \<Rightarrow> 'p pyval \<Rightarrow> 'p pickledb \<Rightarrow> bool outcome \<times> 'p pickledb" where
  "pickle_commit_impl key v d = (Return True, pickledb_set key v d)"

definition pickle_batch_commit_impl ::
  "(string \<times> 'p pyval) list \<Rightarrow> 'p pickledb \<Rightarrow> int outcome \<times> 'p pickledb" where
  "pickle_batch_commit_impl pairs d =
     (Return (int (length pairs)), fold (\<lambda>(key, v) d'. pickledb_set key v d') pairs d)"

definition PickleDatabase :: "('p pickledb, 'p) adapter" where
  "PickleDatabase =
     \<lparr>count_impl = pickle_count,
      query_keys_impl = pickle_query_keys,
      query_impl = pickle_query,
      batch_query_impl = pickle_batch_query,
      commit_impl = pickle_commit_impl,
      batch_commit_impl = pickle_batch_commit_impl\<rparr>"

text \<open>
  \<^verbatim>\<open>jsonpickle.decode\<close> is outside the sources: the encoding of a value decodes to
  the value, another string is not JSON (\<^verbatim>\<open>ValueError\<close>), anything that is not a string
  is refused with \<^verbatim>\<open>TypeError\<close>.
\<close>

fun jsonpickle_decode :: "'p pyval \<Rightarrow> 'p pyval outcome" where
  "jsonpickle_decode (PyJson v) = Return v"
| "jsonpickle_decode (PyStr s) = Raise ValueError"
| "jsonpickle_decode v = Raise TypeError"

text \<open>\<^verbatim>\<open>PickleDatabase.load\<close>: the decoding loop, then the two indices.\<close>

fun pickle_decode_loop :: "string list \<Rightarrow> 'p pickledb \<Rightarrow> unit outcome \<times> 'p pickledb" where
  "pickle_decode_loop [] d = (Return (), d)"
| "pickle_decode_loop (key # keys) d =
     (case jsonpickle_decode (pickledb_get d key) of
        Return obj \<Rightarrow> pickle_decode_loop keys (pickledb_set key obj d)
      | Raise e \<Rightarrow> (Raise e, d)
      | Exit n \<Rightarrow> (Exit n, d))"

definition pickle_load_data ::
  "('p pickledb, 'p) Database \<Rightarrow> unit outcome \<times> ('p pickledb, 'p) Database" where
  "pickle_load_data db =
     (case pickle_decode_loop (pickledb_getall (database db)) (database db) of
        (Return u, d) \<Rightarrow>
          (Return (), (log_info ''Load %d data from an existing database'' db)\<lparr>database := d\<rparr>)
      | (Raise e, d) \<Rightarrow>
          if e = ValueError
          then (Exit 1,
                (print_line ''Failed to load the data from the database'' db)\<lparr>database := d\<rparr>)
          else (Raise e, db\<lparr>database := d\<rparr>)
      | (Exit n, d) \<Rightarrow> (Exit n, db\<lparr>database := d\<rparr>))"

definition pickle_load ::
  "('p \<Rightarrow> string) \<Rightarrow> (nat \<Rightarrow> real) \<Rightarrow> ('p pickledb, 'p) Database
     \<Rightarrow> unit outcome \<times> ('p pickledb, 'p) Database" where
  "pickle_load gen_key clock db =
     bind (pickle_load_data db) (\<lambda>u db1.
       bind (init_best_cache PickleDatabase clock db1) (\<lambda>u db2.
         init_code_hash_map PickleDatabase gen_key db2))"


text \<open>A database object as the constructor leaves it, around a given handle.\<close>

definition new_database :: "'b \<Rightarrow> ('b, 'p) Database" where
  "new_database b =
     \<lparr>database = b, best_cache = [], code_hash_map = Map.empty,
      logged = [], stdout = [], ticks = 0\<rparr>"

section \<open>Callers used to state the properties\<close>

text \<open>A caller that makes one \<^verbatim>\<open>add_code_hash\<close> call after the other and drops the answers.\<close>

fun add_code_hash_calls ::
  "(string \<times> string) list \<Rightarrow> ('b, 'p) Database \<Rightarrow> ('b, 'p) Database" where
  "add_code_hash_calls [] db = db"
| "add_code_hash_calls ((h, key) # calls) db =
     add_code_hash_calls calls (snd (add_code_hash h key db))"

text \<open>\<^verbatim>\<open>isinstance(v, Result)\<close>\<close>

fun is_result :: "'p pyval \<Rightarrow> bool" where
  "is_result (PyResult r) = True"
| "is_result v = False"

text \<open>
  An adapter whose writes fail (the spec's scenario of a batch with an entry made to
  fail the backend write): it writes nothing, \<^verbatim>\<open>commit_impl\<close> answers \<^verbatim>\<open>False\<close> and
  \<^verbatim>\<open>batch_commit_impl\<close> counts one write less than it was asked for.
\<close>

definition FailingDatabase :: "('p pickledb, 'p) adapter" where
  "FailingDatabase =
     PickleDatabase
       \<lparr>commit_impl := (\<lambda>key v d. (Return False, d)),
        batch_commit_impl := (\<lambda>pairs d. (Return (int (length pairs) - 1), d))\<rparr>"

text \<open>
  The results of the spec's scenario: two \<^verbatim>\<open>MerlinResult\<close> objects with the content hash
  \<^verbatim>\<open>"abc"\<close>, of the points \<^verbatim>\<open>p1\<close> (quality 5) and \<^verbatim>\<open>p2\<close> (quality 3). A design point is
  here its own key.
\<close>

definition merlin_abc :: "string \<Rightarrow> real \<Rightarrow> string result" where
  "merlin_abc p q =
     \<lparr>cls = MerlinResult, point = Some p, ret_code = VALID, valid = True,
      quality = q, code_hash = Some ''abc''\<rparr>"

definition point_key :: "string \<Rightarrow> string" where
  "point_key p = p"

text \<open>An \<^verbatim>\<open>HLSResult\<close> of the point \<open>p\<close> with the given quality and return code.\<close>

definition hls_result :: "string \<Rightarrow> real \<Rightarrow> RetCode \<Rightarrow> string result" where
  "hls_result p q rc =
     \<lparr>cls = HLSResult, point = Some p, ret_code = rc, valid = True,
      quality = q, code_hash = None\<rparr>"

text \<open>A caller that hands one result after the other to \<^verbatim>\<open>update_best\<close>.\<close>

fun update_best_calls ::
  "(nat \<Rightarrow> real) \<Rightarrow> 'p result list \<Rightarrow> ('b, 'p) Database \<Rightarrow> unit outcome \<times> ('b, 'p) Database" where
  "update_best_calls clock [] db = (Return (), db)"
| "update_best_calls clock (r # rs) db =
     bind (update_best clock r db) (\<lambda>u db1. update_best_calls clock rs db1)"


text \<open>A wall clock that is set back after its first reading.\<close>

definition clock_set_back :: "nat \<Rightarrow> real" where
  "clock_set_back n = (if n = 0 then 2 else 1)"

text \<open>The best cache after the calls.\<close>

definition cache_after ::
  "(nat \<Rightarrow> real) \<Rightarrow> 'p result list \<Rightarrow> ('b, 'p) Database \<Rightarrow> 'p entry list" where
  "cache_after clock rs db = best_cache (snd (update_best_calls clock rs db))"

text \<open>A wall clock that gives the same reading twice.\<close>

definition clock_stalled :: "nat \<Rightarrow> real" where
  "clock_stalled n = 1"

text \<open>The list of the queue after the entries were put one after the other.\<close>

definition put_all :: "'p entry list \<Rightarrow> 'p entry list \<Rightarrow> 'p entry list" where
  "put_all es q = fold (\<lambda>e h. snd (pq_put e h)) es q"









text \<open>The stored pairs in the order in which a server lists their keys.\<close>

definition listed :: "rank \<Rightarrow> (string \<times> 'v) list \<Rightarrow> (string \<times> 'v) list" where
  "listed rank kvs = sort_key (\<lambda>(key, v). rank (length kvs) key) kvs"

section \<open>The list of the priority queue\<close>

lemma mset_siftdown: "mset (snd (siftdown heap pos)) = mset heap"
proof (induction heap pos rule: siftdown.induct)
  case (1 heap pos)
  show ?case
  proof (cases "pos = 0 \<or> length heap \<le> pos")
    case True
    then show ?thesis by (subst siftdown.simps) simp
  next
    case False
    then have b: "pos < length heap" "(pos - 1) div 2 < length heap" by auto
    have sw: "mset (heap[(pos - 1) div 2 := heap ! pos, pos := heap ! ((pos - 1) div 2)])
                = mset heap"
      using b by (simp add: mset_swap)
    show ?thesis
    proof (cases "tuple_lt (heap ! pos) (heap ! ((pos - 1) div 2))")
      case (Inl err)
      with False show ?thesis by (subst siftdown.simps) simp
    next
      case (Inr lt)
      show ?thesis
      proof (cases lt)
        case True
        from "1.IH" [OF False Inr True] sw False Inr True show ?thesis
          by (subst siftdown.simps) simp
      next
        case no: False
        with False Inr show ?thesis by (subst siftdown.simps) simp
      qed
    qed
  qed
qed

lemma mset_pq_put: "mset (snd (pq_put e q)) = add_mset e (mset q)"
  by (simp add: pq_put_def heappush_def mset_siftdown)

lemma set_pq_put: "set (snd (pq_put e q)) = insert e (set q)"
proof -
  have "set (snd (pq_put e q)) = set_mset (mset (snd (pq_put e q)))" by simp
  also have "\<dots> = insert e (set q)" by (simp only: mset_pq_put) simp
  finally show ?thesis .
qed




lemma pq_put_empty: "pq_put e [] = (None, [e])"
  by (simp add: pq_put_def heappush_def siftdown.simps)

lemma put_all_Nil: "put_all [] q = q"
  by (simp add: put_all_def)

lemma put_all_Cons: "put_all (e # es) q = put_all es (snd (pq_put e q))"
  by (simp add: put_all_def)

lemma mset_put_all: "mset (put_all es q) = mset q + mset es"
  by (induction es arbitrary: q) (simp_all add: put_all_Nil put_all_Cons mset_pq_put)

lemma set_put_all: "set (put_all es q) = set q \<union> set es"
proof -
  have "set (put_all es q) = set_mset (mset (put_all es q))" by simp
  also have "\<dots> = set q \<union> set es" by (simp only: mset_put_all) simp
  finally show ?thesis .
qed

section \<open>The code hash map\<close>

lemma add_code_hash_keeps:
  "code_hash_map db h = Some k \<Longrightarrow> code_hash_map (snd (add_code_hash h' k' db)) h = Some k"
  by (auto simp: add_code_hash_def split: option.splits)

lemma add_code_hash_calls_keeps:
  "code_hash_map db h = Some k \<Longrightarrow> code_hash_map (add_code_hash_calls calls db) h = Some k"
proof (induction calls arbitrary: db)
  case Nil
  then show ?case by simp
next
  case (Cons c calls)
  obtain h' k' where c: "c = (h', k')" by (cases c)
  show ?case
    unfolding c add_code_hash_calls.simps
    by (rule Cons.IH) (rule add_code_hash_keeps [OF Cons.prems])
qed

text \<open>
  C4 (check-and-set): when the map does not hold the hash \<open>h\<close>, \<^verbatim>\<open>add_code_hash(h, k1)\<close>
  answers \<^verbatim>\<open>None\<close> and records \<open>k1\<close> for \<open>h\<close>. After that, and after any further calls of
  \<^verbatim>\<open>add_code_hash\<close>, a call \<^verbatim>\<open>add_code_hash(h, k2)\<close> with any key \<open>k2\<close> (also \<open>k1\<close>) answers
  \<open>k1\<close> and leaves the whole object as it was: the first writer wins.
\<close>

theorem add_code_hash_first_writer_wins:
  assumes "code_hash_map db h = None"
  shows "fst (add_code_hash h k1 db) = None
    \<and> code_hash_map (snd (add_code_hash h k1 db)) h = Some k1
    \<and> add_code_hash h k2 (add_code_hash_calls calls (snd (add_code_hash h k1 db)))
        = (Some k1, add_code_hash_calls calls (snd (add_code_hash h k1 db)))"
proof -
  have first: "add_code_hash h k1 db = (None, db\<lparr>code_hash_map := (code_hash_map db)(h \<mapsto> k1)\<rparr>)"
    using assms by (simp add: add_code_hash_def)
  have rec: "code_hash_map (snd (add_code_hash h k1 db)) h = Some k1"
    by (simp add: first)
  have later: "code_hash_map (add_code_hash_calls calls (snd (add_code_hash h k1 db))) h = Some k1"
    by (rule add_code_hash_calls_keeps [OF rec])
  have "add_code_hash h k2 (add_code_hash_calls calls (snd (add_code_hash h k1 db)))
        = (Some k1, add_code_hash_calls calls (snd (add_code_hash h k1 db)))"
    using later by (simp add: add_code_hash_def)
  with first rec show ?thesis by simp
qed

theorem add_code_hash_first_writer_wins_witness:
  "code_hash_map (new_database () :: (unit, unit) Database) ''abc'' = None
   \<and> fst (add_code_hash ''abc'' ''p1'' (new_database () :: (unit, unit) Database)) = None
   \<and> code_hash_map (snd (add_code_hash ''abc'' ''p1'' (new_database () :: (unit, unit) Database))) ''abc''
       = Some ''p1''
   \<and> fst (add_code_hash ''abc'' ''p2''
        (add_code_hash_calls [(''xyz'', ''p3''), (''abc'', ''p1'')]
          (snd (add_code_hash ''abc'' ''p1'' (new_database () :: (unit, unit) Database)))))
       = Some ''p1''"
proof -
  have h: "code_hash_map (new_database () :: (unit, unit) Database) ''abc'' = None"
    by (simp add: new_database_def)
  show ?thesis
    using h add_code_hash_first_writer_wins [OF h, of "''p1''" "''p2''"
        "[(''xyz'', ''p3''), (''abc'', ''p1'')]"]
    by simp
qed

section \<open>Writes that fail\<close>

text \<open>
  C7 (fatal write failure): when \<^verbatim>\<open>commit_impl\<close> answers \<^verbatim>\<open>False\<close>, and when
  \<^verbatim>\<open>batch_commit_impl\<close> reports fewer writes than there are pairs, the call logs the
  error, prints the message and ends the process with exit status 1. The best cache,
  the code hash map and the number of clock readings are those from before the call:
  \<^verbatim>\<open>update_best\<close> did not run.
\<close>

theorem write_failure_is_fatal:
  "(commit_impl A key v (database db) = (Return False, b) \<longrightarrow>
      commit A clock key v db
        = (Exit 1,
           db\<lparr>database := b,
              logged := logged db @ [(ERROR, ''Failed to commit results to the database'')],
              stdout := stdout db @ [''Error: Database connection error'']\<rparr>)
      \<and> best_cache (snd (commit A clock key v db)) = best_cache db
      \<and> ticks (snd (commit A clock key v db)) = ticks db)
   \<and> (batch_commit_impl A pairs (database db) = (Return n, b) \<and> n < int (length pairs) \<longrightarrow>
      batch_commit A clock pairs db
        = (Exit 1,
           db\<lparr>database := b,
              logged := logged db @ [(ERROR, ''Failed to commit results to the database'')],
              stdout := stdout db @ [''Error: Database connection error'']\<rparr>)
      \<and> best_cache (snd (batch_commit A clock pairs db)) = best_cache db
      \<and> ticks (snd (batch_commit A clock pairs db)) = ticks db)"
  by (simp add: commit_def batch_commit_def fatal_def print_line_def log_error_def)

theorem write_failure_is_fatal_witness:
  "commit_impl FailingDatabase ''p1''
       (PyResult \<lparr>cls = HLSResult, point = Some (), ret_code = VALID, valid = True,
                  quality = 5, code_hash = None\<rparr>)
       (database (new_database [] :: (unit pickledb, unit) Database))
     = (Return False, [])
   \<and> fst (commit FailingDatabase real ''p1''
       (PyResult \<lparr>cls = HLSResult, point = Some (), ret_code = VALID, valid = True,
                  quality = 5, code_hash = None\<rparr>)
       (new_database [] :: (unit pickledb, unit) Database)) = Exit 1
   \<and> best_cache (snd (commit FailingDatabase real ''p1''
       (PyResult \<lparr>cls = HLSResult, point = Some (), ret_code = VALID, valid = True,
                  quality = 5, code_hash = None\<rparr>)
       (new_database [] :: (unit pickledb, unit) Database))) = []
   \<and> batch_commit_impl FailingDatabase
       [(''p1'', PyResult \<lparr>cls = HLSResult, point = Some (), ret_code = VALID, valid = True,
                  quality = 5, code_hash = None\<rparr>)]
       (database (new_database [] :: (unit pickledb, unit) Database))
     = (Return 0, [])
   \<and> fst (batch_commit FailingDatabase real
       [(''p1'', PyResult \<lparr>cls = HLSResult, point = Some (), ret_code = VALID, valid = True,
                  quality = 5, code_hash = None\<rparr>)]
       (new_database [] :: (unit pickledb, unit) Database)) = Exit 1
   \<and> best_cache (snd (batch_commit FailingDatabase real
       [(''p1'', PyResult \<lparr>cls = HLSResult, point = Some (), ret_code = VALID, valid = True,
                  quality = 5, code_hash = None\<rparr>)]
       (new_database [] :: (unit pickledb, unit) Database))) = []"
proof -
  let ?r = "PyResult \<lparr>cls = HLSResult, point = Some (), ret_code = VALID, valid = True,
                  quality = 5, code_hash = None\<rparr>"
  let ?db = "new_database [] :: (unit pickledb, unit) Database"
  have c: "commit_impl FailingDatabase ''p1'' ?r (database ?db) = (Return False, [])"
    by (simp add: FailingDatabase_def new_database_def)
  have b: "batch_commit_impl FailingDatabase [(''p1'', ?r)] (database ?db) = (Return 0, [])"
    by (simp add: FailingDatabase_def new_database_def)
  have d: "best_cache ?db = []"
    by (simp add: new_database_def)
  show ?thesis
    using c b d
      write_failure_is_fatal [of FailingDatabase "''p1''" ?r ?db "[]" real "[(''p1'', ?r)]" 0]
    by simp
qed

section \<open>What the adapters store\<close>

lemma map_of_fold_update:
  "map_of (fold (\<lambda>(k, v) d. AList.update k v d) ps d) = map_of d ++ map_of (rev ps)"
proof (induction ps arbitrary: d)
  case Nil
  then show ?case by simp
next
  case (Cons p ps)
  obtain k v where p: "p = (k, v)" by (cases p)
  have "map_of (fold (\<lambda>(k, v) d. AList.update k v d) (p # ps) d)
        = map_of (AList.update k v d) ++ map_of (rev ps)"
    by (simp add: p Cons.IH)
  also have "\<dots> = map_of d ++ map_of (rev (p # ps))"
    by (simp add: p update_conv' map_add_upd_left fun_eq_iff map_add_def split: option.splits)
  finally show ?case .
qed

lemma map_of_fold_update_distinct:
  assumes "distinct (map fst ps)" and "(k, v) \<in> set ps"
  shows "map_of (fold (\<lambda>(k, v) d. AList.update k v d) ps d) k = Some v"
proof -
  have "distinct (map fst (rev ps))" using assms(1) by (simp add: rev_map [symmetric])
  moreover have "(k, v) \<in> set (rev ps)" using assms(2) by simp
  ultimately have "map_of (rev ps) k = Some v" by (rule map_of_is_SomeI)
  then show ?thesis by (simp add: map_of_fold_update)
qed

lemma fold_update_keys_distinct:
  "distinct (map fst d) \<Longrightarrow> distinct (map fst (fold (\<lambda>(k, v) d. AList.update k v d) ps d))"
proof (induction ps arbitrary: d)
  case Nil
  then show ?case by simp
next
  case (Cons p ps)
  obtain k v where p: "p = (k, v)" by (cases p)
  show ?case unfolding p using Cons.prems by (simp add: Cons.IH distinct_update)
qed

lemma fold_update_keys_set:
  "fst ` set (fold (\<lambda>(k, v) d. AList.update k v d) ps d) = fst ` set d \<union> fst ` set ps"
proof (induction ps arbitrary: d)
  case Nil
  then show ?case by simp
next
  case (Cons p ps)
  obtain k v where p: "p = (k, v)" by (cases p)
  show ?case unfolding p by (auto simp: Cons.IH dom_update)
qed

lemma map_of_rev_distinct:
  assumes "distinct (map fst xs)"
  shows "map_of (rev xs) = map_of xs"
proof -
  have "distinct (map fst (rev xs))" using assms by (simp add: rev_map [symmetric])
  then show ?thesis using assms by (simp add: map_of_inject_set)
qed

lemma length_dict_of: "length (dict_of ps) = card (fst ` set ps)"
proof -
  have d: "distinct (map fst (dict_of ps))"
    unfolding dict_of_def by (rule fold_update_keys_distinct) simp
  have "length (dict_of ps) = length (map fst (dict_of ps))" by simp
  also have "\<dots> = card (set (map fst (dict_of ps)))"
    using d by (simp only: distinct_card)
  also have "\<dots> = card (fst ` set ps)"
    by (simp add: dict_of_def fold_update_keys_set)
  finally show ?thesis .
qed

lemma length_dict_of_distinct:
  assumes "distinct (map fst ps)"
  shows "length (dict_of ps) = length ps"
proof -
  have "card (fst ` set ps) = card (set (map fst ps))" by simp
  also have "\<dots> = length (map fst ps)" using assms by (rule distinct_card)
  finally show ?thesis by (simp add: length_dict_of)
qed

lemma map_of_dict_of: "map_of (dict_of ps) = map_of (rev ps)"
  by (simp add: dict_of_def map_of_fold_update)

lemma dict_of_Nil: "dict_of ps = [] \<longleftrightarrow> ps = []"
proof -
  have "length (dict_of ps) = 0 \<longleftrightarrow> ps = []"
    by (simp add: length_dict_of)
  then show ?thesis by simp
qed

lemma fold_hset:
  "fold (\<lambda>(k, b) r. hset k b r) data rd
     = rd\<lparr>hash_fields := fold (\<lambda>(k, b) d. AList.update k b d) data (hash_fields rd)\<rparr>"
  by (induction data arbitrary: rd) (auto simp: hset_def)

lemma hmset_Nil: "hmset [] rd = Inl DataError"
  by (simp add: hmset_def)

lemma hmset_Inr:
  "data \<noteq> [] \<Longrightarrow>
   hmset data rd
     = Inr (rd\<lparr>hash_fields := fold (\<lambda>(k, b) d. AList.update k b d) data (hash_fields rd)\<rparr>)"
  by (simp add: hmset_def fold_hset)

lemma hget_persist: "hget (snd (redis_persist rank rd)) key = hget rd key"
  by (simp add: redis_persist_def hget_def)

lemma hash_fields_persist: "hash_fields (snd (redis_persist rank rd)) = hash_fields rd"
  by (simp add: redis_persist_def)

lemma dump_db_persist: "dump_db rank (snd (redis_persist rank rd)) = dump_db rank rd"
  by (simp add: redis_persist_def dump_db_def hgetall_def hkeys_def hget_def)

lemma db_file_persist:
  "db_file (snd (redis_persist rank rd)) = Dump (dump_db rank (snd (redis_persist rank rd)))"
  by (simp add: dump_db_persist) (simp add: redis_persist_def)

lemma set_hkeys: "set (hkeys rank rd) = fst ` set (hash_fields rd)"
  by (simp add: hkeys_def hgetall_def)

lemma map_of_map_filter_keys:
  "map_of (List.map_filter (\<lambda>key. case f key of Some b \<Rightarrow> Some (key, b) | None \<Rightarrow> None) ks) k
     = (if k \<in> set ks then f k else None)"
  by (induction ks) (auto simp: List.map_filter_simps split: option.splits)

lemma map_of_dump_db: "map_of (dump_db rank rd) k = hget rd k"
proof -
  have "map fst (hgetall rank rd) = hkeys rank rd"
    by (simp add: hkeys_def)
  then have "map_of (dump_db rank rd) k = (if k \<in> set (hkeys rank rd) then hget rd k else None)"
    by (simp add: dump_db_def map_of_map_filter_keys)
  moreover have "k \<notin> set (hkeys rank rd) \<Longrightarrow> hget rd k = None"
    by (simp add: set_hkeys hget_def map_of_eq_None_iff)
  ultimately show ?thesis by simp
qed

lemma redis_batch_commit_impl_Nil:
  "redis_batch_commit_impl rank [] rd = (Raise DataError, rd)"
  by (simp add: redis_batch_commit_impl_def dict_of_def hmset_def)

lemma redis_batch_commit_impl_Cons:
  assumes "pairs \<noteq> []"
  shows "redis_batch_commit_impl rank pairs rd
     = (Return (int (card (fst ` set pairs))),
        snd (redis_persist rank
          (rd\<lparr>hash_fields :=
               fold (\<lambda>(k, b) d. AList.update k b d)
                 (dict_of (map (\<lambda>(key, v). (key, pickle_dumps v)) pairs)) (hash_fields rd)\<rparr>)))"
proof -
  let ?ps = "map (\<lambda>(key, v). (key, pickle_dumps v)) pairs"
  have keys: "map fst ?ps = map fst pairs" by (induction pairs) auto
  then have img: "fst ` set ?ps = fst ` set pairs" by (metis set_map)
  have ne: "dict_of ?ps \<noteq> []" using assms by (simp add: dict_of_Nil)
  show ?thesis
    by (simp add: redis_batch_commit_impl_def Let_def hmset_Inr [OF ne] length_dict_of img
        del: set_map)
qed

lemma hget_redis_batch:
  assumes "pairs \<noteq> []"
  shows "hget (snd (redis_batch_commit_impl rank pairs rd)) k
     = (case map_of (rev pairs) k of
          Some v \<Rightarrow> Some (pickle_dumps v)
        | None \<Rightarrow> hget rd k)"
proof -
  let ?ps = "map (\<lambda>(key, v). (key, pickle_dumps v)) pairs"
  have m: "map_of (rev ?ps) k = map_option pickle_dumps (map_of (rev pairs) k)"
    by (induction pairs rule: rev_induct) (auto simp: rev_map)
  have "hget (snd (redis_batch_commit_impl rank pairs rd)) k
        = (map_of (hash_fields rd) ++ map_of (rev (dict_of ?ps))) k"
    by (simp add: redis_batch_commit_impl_Cons [OF assms] hget_persist)
       (simp add: hget_def map_of_fold_update)
  also have "map_of (rev (dict_of ?ps)) = map_of (dict_of ?ps)"
  proof -
    have "distinct (map fst (dict_of ?ps))"
      unfolding dict_of_def by (rule fold_update_keys_distinct) simp
    then show ?thesis by (rule map_of_rev_distinct)
  qed
  finally show ?thesis
    by (simp add: map_of_dict_of m map_add_def hget_def split: option.splits)
qed

lemma pickledb_get_batch:
  "pickledb_get (snd (pickle_batch_commit_impl pairs d)) k
     = (case map_of (rev pairs) k of Some v \<Rightarrow> v | None \<Rightarrow> pickledb_get d k)"
proof -
  have "snd (pickle_batch_commit_impl pairs d) = fold (\<lambda>(k, v) d. AList.update k v d) pairs d"
    unfolding pickle_batch_commit_impl_def pickledb_set_def by simp
  then have "map_of (snd (pickle_batch_commit_impl pairs d)) = map_of d ++ map_of (rev pairs)"
    by (simp only: map_of_fold_update)
  then show ?thesis
    by (simp add: pickledb_get_def map_add_def split: option.splits)
qed

section \<open>Frame lemmas\<close>

lemma run_read_frame:
  "database (snd (run_read f db)) = database db"
  "best_cache (snd (run_read f db)) = best_cache db"
  "code_hash_map (snd (run_read f db)) = code_hash_map db"
  "ticks (snd (run_read f db)) = ticks db"
  by (simp_all add: run_read_def split: prod.splits)

lemma query_all_frame:
  "database (snd (query_all A db)) = database db"
  "best_cache (snd (query_all A db)) = best_cache db"
  "code_hash_map (snd (query_all A db)) = code_hash_map db"
  "ticks (snd (query_all A db)) = ticks db"
  by (simp_all add: query_all_def batch_query_def bind_def run_read_def
      split: prod.splits outcome.splits)

lemma update_best_frame:
  "database (snd (update_best clock r db)) = database db"
  "code_hash_map (snd (update_best clock r db)) = code_hash_map db"
  by (simp_all add: update_best_def read_clock_def log_error_def split: prod.splits option.splits)

lemma update_best_no_exit: "fst (update_best clock r db) \<noteq> Exit n"
  by (simp add: update_best_def read_clock_def split: prod.splits option.splits)

lemma update_best_entries:
  assumes "e \<in> set (best_cache (snd (update_best clock r db)))"
  shows "e \<in> set (best_cache db) \<or> (entry_result e = r \<and> ret_code r \<noteq> DUPLICATED)"
proof (cases "ret_code r \<noteq> DUPLICATED")
  case True
  let ?e = "(quality r, clock (ticks db), r)"
  have "best_cache (snd (update_best clock r db)) = snd (pq_put ?e (best_cache db))"
    using True
    by (simp add: update_best_def read_clock_def log_error_def split: prod.splits option.splits)
  with assms have "e \<in> insert ?e (set (best_cache db))" by (simp add: set_pq_put)
  with True show ?thesis by (auto simp: entry_result_def)
next
  case False
  with assms show ?thesis by (simp add: update_best_def)
qed

lemma update_best_pair:
  assumes "update_best clock r db = (out, db1)"
  shows "database db1 = database db" and "code_hash_map db1 = code_hash_map db"
    and "out \<noteq> Exit n"
    and "e \<in> set (best_cache db1) \<Longrightarrow>
           e \<in> set (best_cache db) \<or> (entry_result e = r \<and> ret_code r \<noteq> DUPLICATED)"
proof -
  show "database db1 = database db" using update_best_frame(1) [of clock r db] assms by simp
  show "code_hash_map db1 = code_hash_map db"
    using update_best_frame(2) [of clock r db] assms by simp
  show "out \<noteq> Exit n" using update_best_no_exit [of clock r db n] assms by simp
  show "e \<in> set (best_cache db1) \<Longrightarrow>
           e \<in> set (best_cache db) \<or> (entry_result e = r \<and> ret_code r \<noteq> DUPLICATED)"
    using update_best_entries [of e clock r db] assms by simp
qed

lemma update_best_loop_frame:
  "database (snd (update_best_loop clock ps db)) = database db
   \<and> code_hash_map (snd (update_best_loop clock ps db)) = code_hash_map db"
proof (induction clock ps db rule: update_best_loop.induct)
  case (2 clock k r ps db)
  show ?case
    using 2 by (auto simp: bind_def split: prod.splits outcome.splits dest: update_best_pair(1,2))
qed simp_all

lemma update_best_loop_no_exit: "fst (update_best_loop clock ps db) \<noteq> Exit n"
proof (induction clock ps db rule: update_best_loop.induct)
  case (2 clock k r ps db)
  show ?case
    using 2 by (auto simp: bind_def split: prod.splits outcome.splits dest: update_best_pair(3))
qed simp_all

lemma update_best_loop_entries:
  "e \<in> set (best_cache (snd (update_best_loop clock ps db))) \<Longrightarrow>
   e \<in> set (best_cache db)
   \<or> (ret_code (entry_result e) \<noteq> DUPLICATED \<and> (\<exists>k. (k, PyResult (entry_result e)) \<in> set ps))"
proof (induction clock ps db rule: update_best_loop.induct)
  case (2 clock k r ps db)
  obtain out db1 where u: "update_best clock r db = (out, db1)" by (cases "update_best clock r db")
  have step: "e \<in> set (best_cache db1) \<Longrightarrow>
      e \<in> set (best_cache db) \<or> (entry_result e = r \<and> ret_code r \<noteq> DUPLICATED)"
    by (rule update_best_pair(4) [OF u])
  show ?case
  proof (cases out)
    case (Return x)
    with u "2.prems" have "e \<in> set (best_cache (snd (update_best_loop clock ps db1)))"
      by (simp add: bind_def)
    then have "e \<in> set (best_cache db1)
        \<or> (ret_code (entry_result e) \<noteq> DUPLICATED \<and> (\<exists>k. (k, PyResult (entry_result e)) \<in> set ps))"
      by (rule "2.IH")
    then show ?thesis using step by auto
  next
    case (Raise x)
    with u "2.prems" have "e \<in> set (best_cache db1)" by (simp add: bind_def)
    then show ?thesis using step by auto
  next
    case (Exit m)
    with u "2.prems" have "e \<in> set (best_cache db1)" by (simp add: bind_def)
    then show ?thesis using step by auto
  qed
qed auto

lemma update_best_loop_filter:
  "update_best_loop clock (filter (\<lambda>p. is_result (snd p)) ps) db = update_best_loop clock ps db"
proof (induction clock ps db rule: update_best_loop.induct)
  case (2 clock k r ps db)
  then show ?case by (simp add: bind_def split: prod.splits outcome.splits)
qed simp_all

lemma update_best_loop_no_results:
  "\<forall>p \<in> set ps. \<not> is_result (snd p) \<Longrightarrow> update_best_loop clock ps db = (Return (), db)"
  by (induction clock ps db rule: update_best_loop.induct) simp_all

section \<open>Values that are not results\<close>

lemma commit_non_result:
  assumes "\<not> is_result v" and "commit_impl A key v (database db) = (Return True, b)"
  shows "commit A clock key v db = (Return (), db\<lparr>database := b\<rparr>)"
  using assms by (cases v) (simp_all add: commit_def)

lemma pickledb_get_set: "pickledb_get (pickledb_set key v d) key = v"
  by (simp add: pickledb_get_def pickledb_set_def update_conv')

lemma hget_hset: "hget (hset key b rd) key = Some b"
  by (simp add: hget_def hset_def update_conv')

lemma database_commit_pickle:
  "database (snd (commit PickleDatabase clock key v db)) = pickledb_set key v (database db)"
  by (cases v)
     (simp_all add: commit_def PickleDatabase_def pickle_commit_impl_def update_best_frame)

lemma database_commit_redis:
  "database (snd (commit (RedisDatabase rank) clock key v db))
     = snd (redis_persist rank (hset key (pickle_dumps v) (database db)))"
  by (cases v)
     (simp_all add: commit_def RedisDatabase_def redis_commit_impl_def Let_def update_best_frame)

lemma database_batch_commit:
  "database (snd (batch_commit A clock pairs db)) = snd (batch_commit_impl A pairs (database db))"
proof (cases "batch_commit_impl A pairs (database db)")
  case (Pair out b)
  then show ?thesis
    by (cases out)
       (simp_all add: batch_commit_def fatal_def print_line_def log_error_def
          update_best_loop_frame)
qed

text \<open>
  C9 (type gate): a value that is not a \<^verbatim>\<open>Result\<close> instance and whose write succeeds is
  handed to the adapter and nothing else happens: \<^verbatim>\<open>commit\<close> returns with the object
  unchanged but for the adapter's handle, on which both adapters hold the value under
  its key (the Redis adapter in the hash and in the dump file). After a write that
  succeeded, \<^verbatim>\<open>batch_commit\<close> proceeds as if the pairs that hold no result were not in
  the list, it changes nothing when no pair holds a result, and every entry of the
  best cache afterwards was there before or carries a result of one of the pairs.
  After \<^verbatim>\<open>batch_commit\<close> the handle of the PickleDB adapter holds, for every key among
  the pairs, the value of the last pair with that key, and for every other key what it
  held before; so does the hash of the Redis adapter for a list of pairs that is not
  empty, and the dump file holds what the hash holds. A pair of a list whose keys differ
  pairwise is therefore stored on both adapters. For the empty list the Redis adapter
  raises the \<^verbatim>\<open>DataError\<close> of \<^verbatim>\<open>hmset\<close> and stores nothing.
\<close>

theorem only_results_enter_best_cache:
  "(\<not> is_result v \<and> commit_impl A key v (database db) = (Return True, b) \<longrightarrow>
      commit A clock key v db = (Return (), db\<lparr>database := b\<rparr>))
   \<and> (\<not> is_result v \<longrightarrow>
        pickledb_get (database (snd (commit PickleDatabase clock key v pdb))) key = v
        \<and> best_cache (snd (commit PickleDatabase clock key v pdb)) = best_cache pdb
        \<and> hget (database (snd (commit (RedisDatabase rank) clock key v rdb))) key
            = Some (pickle_dumps v)
        \<and> db_file (database (snd (commit (RedisDatabase rank) clock key v rdb)))
            = Dump (dump_db rank (database (snd (commit (RedisDatabase rank) clock key v rdb))))
        \<and> map_of (dump_db rank (database (snd (commit (RedisDatabase rank) clock key v rdb)))) key
            = Some (pickle_dumps v)
        \<and> best_cache (snd (commit (RedisDatabase rank) clock key v rdb)) = best_cache rdb)
   \<and> (batch_commit_impl A pairs (database db) = (Return (int (length pairs)), b) \<longrightarrow>
        batch_commit A clock pairs db
          = update_best_loop clock (filter (\<lambda>p. is_result (snd p)) pairs) (db\<lparr>database := b\<rparr>)
        \<and> ((\<forall>p \<in> set pairs. \<not> is_result (snd p)) \<longrightarrow>
             batch_commit A clock pairs db = (Return (), db\<lparr>database := b\<rparr>))
        \<and> (\<forall>e \<in> set (best_cache (snd (batch_commit A clock pairs db))).
             e \<in> set (best_cache db) \<or> (\<exists>k. (k, PyResult (entry_result e)) \<in> set pairs)))
   \<and> (\<forall>k. pickledb_get (database (snd (batch_commit PickleDatabase clock pairs pdb))) k
          = (case map_of (rev pairs) k of
               Some w \<Rightarrow> w
             | None \<Rightarrow> pickledb_get (database pdb) k))
   \<and> (pairs \<noteq> [] \<longrightarrow>
        (\<forall>k. hget (database (snd (batch_commit (RedisDatabase rank) clock pairs rdb))) k
           = (case map_of (rev pairs) k of
                Some w \<Rightarrow> Some (pickle_dumps w)
              | None \<Rightarrow> hget (database rdb) k))
        \<and> db_file (database (snd (batch_commit (RedisDatabase rank) clock pairs rdb)))
            = Dump (dump_db rank
                (database (snd (batch_commit (RedisDatabase rank) clock pairs rdb))))
        \<and> (\<forall>k. map_of (dump_db rank
                  (database (snd (batch_commit (RedisDatabase rank) clock pairs rdb)))) k
              = hget (database (snd (batch_commit (RedisDatabase rank) clock pairs rdb))) k))
   \<and> ((kp, vp) \<in> set pairs \<and> distinct (map fst pairs) \<longrightarrow>
        pickledb_get (database (snd (batch_commit PickleDatabase clock pairs pdb))) kp = vp
        \<and> hget (database (snd (batch_commit (RedisDatabase rank) clock pairs rdb))) kp
            = Some (pickle_dumps vp))
   \<and> batch_commit (RedisDatabase rank) clock [] rdb = (Raise DataError, rdb)"
proof -
  let ?rc = "snd (commit (RedisDatabase rank) clock key v rdb)"
  let ?rb = "snd (batch_commit (RedisDatabase rank) clock pairs rdb)"
  let ?pb = "snd (batch_commit PickleDatabase clock pairs pdb)"
  have c1: "commit A clock key v db = (Return (), db\<lparr>database := b\<rparr>)"
    if h: "\<not> is_result v \<and> commit_impl A key v (database db) = (Return True, b)"
    by (rule commit_non_result [OF conjunct1 [OF h] conjunct2 [OF h]])
  have c2: "pickledb_get (database (snd (commit PickleDatabase clock key v pdb))) key = v"
    by (simp add: database_commit_pickle pickledb_get_set)
  have c3: "best_cache (snd (commit PickleDatabase clock key v pdb)) = best_cache pdb"
    if n: "\<not> is_result v"
  proof -
    have "commit_impl PickleDatabase key v (database pdb)
            = (Return True, pickledb_set key v (database pdb))"
      by (simp add: PickleDatabase_def pickle_commit_impl_def)
    from commit_non_result [OF n this] show ?thesis by simp
  qed
  have c4: "hget (database ?rc) key = Some (pickle_dumps v)"
    by (simp add: database_commit_redis hget_persist hget_hset)
  have c5: "db_file (database ?rc) = Dump (dump_db rank (database ?rc))"
    unfolding database_commit_redis by (rule db_file_persist)
  have c6: "map_of (dump_db rank (database ?rc)) key = Some (pickle_dumps v)"
    by (simp only: map_of_dump_db c4)
  have c7: "best_cache ?rc = best_cache rdb" if n: "\<not> is_result v"
  proof -
    have "commit_impl (RedisDatabase rank) key v (database rdb)
            = (Return True, snd (redis_persist rank (hset key (pickle_dumps v) (database rdb))))"
      by (simp add: RedisDatabase_def redis_commit_impl_def Let_def)
    from commit_non_result [OF n this] show ?thesis by simp
  qed
  have b1: "batch_commit A clock pairs db
          = update_best_loop clock (filter (\<lambda>p. is_result (snd p)) pairs) (db\<lparr>database := b\<rparr>)
        \<and> ((\<forall>p \<in> set pairs. \<not> is_result (snd p)) \<longrightarrow>
             batch_commit A clock pairs db = (Return (), db\<lparr>database := b\<rparr>))
        \<and> (\<forall>e \<in> set (best_cache (snd (batch_commit A clock pairs db))).
             e \<in> set (best_cache db) \<or> (\<exists>k. (k, PyResult (entry_result e)) \<in> set pairs))"
    if w: "batch_commit_impl A pairs (database db) = (Return (int (length pairs)), b)"
  proof (intro conjI impI)
    from w have bc: "batch_commit A clock pairs db
        = update_best_loop clock pairs (db\<lparr>database := b\<rparr>)"
      by (simp add: batch_commit_def)
    show "batch_commit A clock pairs db
          = update_best_loop clock (filter (\<lambda>p. is_result (snd p)) pairs) (db\<lparr>database := b\<rparr>)"
      by (simp add: bc update_best_loop_filter)
    show "\<forall>e \<in> set (best_cache (snd (batch_commit A clock pairs db))).
          e \<in> set (best_cache db) \<or> (\<exists>k. (k, PyResult (entry_result e)) \<in> set pairs)"
    proof
      fix e
      assume "e \<in> set (best_cache (snd (batch_commit A clock pairs db)))"
      then have "e \<in> set (best_cache (snd (update_best_loop clock pairs (db\<lparr>database := b\<rparr>))))"
        by (simp add: bc)
      from update_best_loop_entries [OF this]
      show "e \<in> set (best_cache db) \<or> (\<exists>k. (k, PyResult (entry_result e)) \<in> set pairs)"
        by auto
    qed
    assume "\<forall>p \<in> set pairs. \<not> is_result (snd p)"
    then show "batch_commit A clock pairs db = (Return (), db\<lparr>database := b\<rparr>)"
      by (simp add: bc update_best_loop_no_results)
  qed
  have dp: "database ?pb = snd (pickle_batch_commit_impl pairs (database pdb))"
    by (simp add: database_batch_commit) (simp add: PickleDatabase_def)
  have dr: "database ?rb = snd (redis_batch_commit_impl rank pairs (database rdb))"
    by (simp add: database_batch_commit) (simp add: RedisDatabase_def)
  have b2: "pickledb_get (database ?pb) k
          = (case map_of (rev pairs) k of
               Some w \<Rightarrow> w
             | None \<Rightarrow> pickledb_get (database pdb) k)" for k
    unfolding dp by (rule pickledb_get_batch)
  have b3: "hget (database ?rb) k
           = (case map_of (rev pairs) k of
                Some w \<Rightarrow> Some (pickle_dumps w)
              | None \<Rightarrow> hget (database rdb) k)" if "pairs \<noteq> []" for k
    unfolding dr using that by (rule hget_redis_batch)
  have b4: "db_file (database ?rb) = Dump (dump_db rank (database ?rb))" if ne: "pairs \<noteq> []"
    unfolding dr redis_batch_commit_impl_Cons [OF ne] snd_conv by (rule db_file_persist)
  have b5: "map_of (dump_db rank (database ?rb)) k = hget (database ?rb) k" for k
    by (rule map_of_dump_db)
  have b67: "pickledb_get (database ?pb) kp = vp \<and> hget (database ?rb) kp = Some (pickle_dumps vp)"
    if m: "(kp, vp) \<in> set pairs \<and> distinct (map fst pairs)"
  proof -
    from m have ne: "pairs \<noteq> []" by auto
    have "distinct (map fst (rev pairs))" using m by (simp add: rev_map [symmetric])
    moreover have "(kp, vp) \<in> set (rev pairs)" using m by simp
    ultimately have "map_of (rev pairs) kp = Some vp" by (rule map_of_is_SomeI)
    then show ?thesis by (simp add: b2 b3 [OF ne])
  qed
  have b8: "batch_commit (RedisDatabase rank) clock [] rdb = (Raise DataError, rdb)"
    by (simp add: batch_commit_def RedisDatabase_def redis_batch_commit_impl_Nil)
  show ?thesis
    using c1 c2 c3 c4 c5 c6 c7 b1 b2 b3 b4 b5 b67 b8 by blast
qed

theorem only_results_enter_best_cache_witness:
  "\<not> is_result (PyStr ''note'' :: unit pyval)
   \<and> commit_impl PickleDatabase ''k1'' (PyStr ''note'' :: unit pyval)
         (database (new_database [] :: (unit pickledb, unit) Database))
       = (Return True, [(''k1'', PyStr ''note'')])
   \<and> commit PickleDatabase real ''k1'' (PyStr ''note'')
         (new_database [] :: (unit pickledb, unit) Database)
       = (Return (), (new_database [])\<lparr>database := [(''k1'', PyStr ''note'')]\<rparr>)
   \<and> hget (database (snd (commit (RedisDatabase (\<lambda>n key. 0)) real ''k1'' (PyStr ''note'')
         (new_database \<lparr>hash_fields = [], db_file = NoFile\<rparr> :: (unit redis, unit) Database))))
         ''k1''
       = Some (pickle_dumps (PyStr ''note''))
   \<and> batch_commit_impl PickleDatabase
         [(''k1'', PyStr ''note''), (''k2'', PyBool True)]
         (database (new_database [] :: (unit pickledb, unit) Database))
       = (Return 2, [(''k1'', PyStr ''note''), (''k2'', PyBool True)])
   \<and> batch_commit PickleDatabase real [(''k1'', PyStr ''note''), (''k2'', PyBool True)]
         (new_database [] :: (unit pickledb, unit) Database)
       = (Return (),
          (new_database [])\<lparr>database := [(''k1'', PyStr ''note''), (''k2'', PyBool True)]\<rparr>)
   \<and> [(''k1'', PyStr ''note'' :: unit pyval), (''k2'', PyBool True)] \<noteq> []
   \<and> (''k2'', PyBool True) \<in> set [(''k1'', PyStr ''note'' :: unit pyval), (''k2'', PyBool True)]
   \<and> distinct (map fst [(''k1'', PyStr ''note'' :: unit pyval), (''k2'', PyBool True)])
   \<and> pickledb_get (database (snd (batch_commit PickleDatabase real
         [(''k1'', PyStr ''note''), (''k2'', PyBool True)]
         (new_database [] :: (unit pickledb, unit) Database)))) ''k2''
       = PyBool True
   \<and> hget (database (snd (batch_commit (RedisDatabase (\<lambda>n key. 0)) real
         [(''k1'', PyStr ''note''), (''k2'', PyBool True)]
         (new_database \<lparr>hash_fields = [], db_file = NoFile\<rparr> :: (unit redis, unit) Database))))
         ''k2''
       = Some (pickle_dumps (PyBool True))
   \<and> map_of (dump_db (\<lambda>n key. 0) (database (snd (batch_commit (RedisDatabase (\<lambda>n key. 0)) real
         [(''k1'', PyStr ''note''), (''k2'', PyBool True)]
         (new_database \<lparr>hash_fields = [], db_file = NoFile\<rparr> :: (unit redis, unit) Database)))))
         ''k1''
       = Some (pickle_dumps (PyStr ''note''))"
proof -
  let ?v = "PyStr ''note'' :: unit pyval"
  let ?db = "new_database [] :: (unit pickledb, unit) Database"
  let ?rdb = "new_database \<lparr>hash_fields = [], db_file = NoFile\<rparr> :: (unit redis, unit) Database"
  let ?pairs = "[(''k1'', ?v), (''k2'', PyBool True)]"
  have n: "\<not> is_result ?v" by simp
  have w: "commit_impl PickleDatabase ''k1'' ?v (database ?db) = (Return True, [(''k1'', ?v)])"
    by (simp add: PickleDatabase_def pickle_commit_impl_def pickledb_set_def new_database_def)
  have bw: "batch_commit_impl PickleDatabase ?pairs (database ?db) = (Return 2, ?pairs)"
    by (simp add: PickleDatabase_def pickle_batch_commit_impl_def pickledb_set_def
        new_database_def)
  have np: "\<forall>p \<in> set ?pairs. \<not> is_result (snd p)" by simp
  have ne: "?pairs \<noteq> []" by simp
  have m: "(''k2'', PyBool True) \<in> set ?pairs \<and> distinct (map fst ?pairs)" by simp
  note T1 = only_results_enter_best_cache [where v = ?v and A = PickleDatabase
      and key = "''k1''" and db = ?db and b = "[(''k1'', ?v)]" and clock = real and pdb = ?db
      and rdb = ?rdb and rank = "\<lambda>n key. 0" and pairs = ?pairs and kp = "''k2''"
      and vp = "PyBool True"]
  note T2 = only_results_enter_best_cache [where v = ?v and A = PickleDatabase
      and key = "''k1''" and db = ?db and b = ?pairs and clock = real and pdb = ?db
      and rdb = ?rdb and rank = "\<lambda>n key. 0" and pairs = ?pairs and kp = "''k2''"
      and vp = "PyBool True"]
  from T1 n w have a1: "commit PickleDatabase real ''k1'' ?v ?db
      = (Return (), ?db\<lparr>database := [(''k1'', ?v)]\<rparr>)" by blast
  from T1 n have a2: "hget (database (snd (commit (RedisDatabase (\<lambda>n key. 0)) real ''k1'' ?v ?rdb)))
      ''k1'' = Some (pickle_dumps ?v)" by blast
  have bw': "batch_commit_impl PickleDatabase ?pairs (database ?db)
      = (Return (int (length ?pairs)), ?pairs)"
    using bw by simp
  from T2 bw' np have a3: "batch_commit PickleDatabase real ?pairs ?db
      = (Return (), ?db\<lparr>database := ?pairs\<rparr>)" by blast
  from T1 m have a4: "pickledb_get (database (snd (batch_commit PickleDatabase real ?pairs ?db)))
      ''k2'' = PyBool True" by blast
  from T1 m have a5: "hget (database (snd (batch_commit (RedisDatabase (\<lambda>n key. 0)) real ?pairs
      ?rdb))) ''k2'' = Some (pickle_dumps (PyBool True))" by blast
  from T1 ne have a6: "map_of (dump_db (\<lambda>n key. 0) (database (snd (batch_commit
      (RedisDatabase (\<lambda>n key. 0)) real ?pairs ?rdb)))) ''k1''
      = hget (database (snd (batch_commit (RedisDatabase (\<lambda>n key. 0)) real ?pairs ?rdb))) ''k1''"
    by blast
  from T1 ne have a7: "hget (database (snd (batch_commit (RedisDatabase (\<lambda>n key. 0)) real ?pairs
      ?rdb))) ''k1''
      = (case map_of (rev ?pairs) ''k1'' of
           Some w \<Rightarrow> Some (pickle_dumps w)
         | None \<Rightarrow> hget (database ?rdb) ''k1'')" by blast
  have a8: "map_of (dump_db (\<lambda>n key. 0) (database (snd (batch_commit
      (RedisDatabase (\<lambda>n key. 0)) real ?pairs ?rdb)))) ''k1'' = Some (pickle_dumps ?v)"
    unfolding a6 a7 by simp
  show ?thesis
    using n w a1 a2 bw a3 a4 a5 a8 by simp
qed

section \<open>What the write methods report\<close>

lemma commit_concrete_no_exit:
  "fst (commit (RedisDatabase rank) clock key v rdb) \<noteq> Exit n"
  "fst (commit PickleDatabase clock key v pdb) \<noteq> Exit n"
  by (cases v;
      simp add: commit_def RedisDatabase_def redis_commit_impl_def Let_def PickleDatabase_def
        pickle_commit_impl_def update_best_no_exit)+

text \<open>
  What the write methods of the two adapters answer. \<^verbatim>\<open>commit_impl\<close> of both adapters
  answers \<^verbatim>\<open>True\<close> whatever it is given, and \<^verbatim>\<open>batch_commit_impl\<close> of the PickleDB
  adapter answers the number of pairs. \<^verbatim>\<open>batch_commit_impl\<close> of the Redis adapter
  raises \<^verbatim>\<open>DataError\<close> for the empty list and otherwise answers the length of the
  dictionary it built, which is the number of different keys among the pairs.
\<close>

lemma write_methods_report:
  "fst (redis_commit_impl rank key v rd) = Return True
   \<and> fst (pickle_commit_impl key v d) = Return True
   \<and> fst (pickle_batch_commit_impl pairs d) = Return (int (length pairs))
   \<and> fst (redis_batch_commit_impl rank [] rd) = Raise DataError
   \<and> (pairs \<noteq> [] \<longrightarrow>
        fst (redis_batch_commit_impl rank pairs rd) = Return (int (card (fst ` set pairs))))
   \<and> (pairs \<noteq> [] \<and> distinct (map fst pairs) \<longrightarrow>
        fst (redis_batch_commit_impl rank pairs rd) = Return (int (length pairs)))
   \<and> (\<forall>n. fst (commit (RedisDatabase rank) clock key v rdb) \<noteq> Exit n)
   \<and> (\<forall>n. fst (commit PickleDatabase clock key v pdb) \<noteq> Exit n)
   \<and> (\<forall>n. fst (batch_commit PickleDatabase clock pairs pdb) \<noteq> Exit n)
   \<and> (distinct (map fst pairs) \<longrightarrow>
        (\<forall>n. fst (batch_commit (RedisDatabase rank) clock pairs rdb) \<noteq> Exit n))"
proof -
  have r: "fst (redis_batch_commit_impl rank pairs rd) = Return (int (card (fst ` set pairs)))"
    if "pairs \<noteq> []" for rd
    by (simp add: redis_batch_commit_impl_Cons [OF that])
  have rd: "fst (redis_batch_commit_impl rank pairs rd) = Return (int (length pairs))"
    if "pairs \<noteq> [] \<and> distinct (map fst pairs)" for rd
  proof -
    have "card (fst ` set pairs) = card (set (map fst pairs))" by simp
    also have "\<dots> = length (map fst pairs)" using that by (intro distinct_card) simp
    finally show ?thesis using that by (simp add: r)
  qed
  have pb: "fst (batch_commit PickleDatabase clock pairs pdb) \<noteq> Exit n" for n
    by (simp add: batch_commit_def PickleDatabase_def pickle_batch_commit_impl_def
        update_best_loop_no_exit)
  have rb: "fst (batch_commit (RedisDatabase rank) clock pairs rdb) \<noteq> Exit n"
    if dk: "distinct (map fst pairs)" for n
  proof (cases "pairs = []")
    case True
    then show ?thesis
      by (simp add: batch_commit_def RedisDatabase_def redis_batch_commit_impl_Nil)
  next
    case False
    with dk have "fst (redis_batch_commit_impl rank pairs (database rdb))
        = Return (int (length pairs))"
      by (intro rd) simp
    then obtain b where
      "redis_batch_commit_impl rank pairs (database rdb) = (Return (int (length pairs)), b)"
      by (cases "redis_batch_commit_impl rank pairs (database rdb)") simp
    then show ?thesis
      by (simp add: batch_commit_def RedisDatabase_def update_best_loop_no_exit)
  qed
  have c1: "fst (redis_commit_impl rank key v rd) = Return True"
    by (simp add: redis_commit_impl_def Let_def)
  have c2: "fst (pickle_commit_impl key v d) = Return True"
    by (simp add: pickle_commit_impl_def)
  have c3: "fst (pickle_batch_commit_impl pairs d) = Return (int (length pairs))"
    by (simp add: pickle_batch_commit_impl_def)
  have c4: "fst (redis_batch_commit_impl rank [] rd) = Raise DataError"
    by (simp add: redis_batch_commit_impl_Nil)
  show ?thesis
    by (intro conjI allI impI c1 c2 c3 c4 r rd pb rb commit_concrete_no_exit) simp_all
qed

text \<open>
  C10 (the exit branch cannot be reached on the two adapters) does not hold of the
  code: \<^verbatim>\<open>RedisDatabase.batch_commit_impl\<close> returns \<^verbatim>\<open>len(data)\<close>, the length of the
  dictionary it built from the pairs, where \<^verbatim>\<open>PickleDatabase.batch_commit_impl\<close> returns
  \<^verbatim>\<open>len(pairs)\<close>. For a batch that names the key \<^verbatim>\<open>p1\<close> twice the dictionary has one
  entry: the Redis method answers 1 for two pairs, and \<^verbatim>\<open>batch_commit\<close> logs the error,
  prints \<^verbatim>\<open>Error: Database connection error\<close> and ends the process with status 1,
  although the write went through: the hash and the dump file hold the value of the
  second pair. The PickleDB adapter answers 2 for the same batch and \<^verbatim>\<open>batch_commit\<close>
  returns.
\<close>

theorem redis_batch_commit_duplicate_key_exits:
  "fst (redis_batch_commit_impl rank [(''p1'', PyStr ''a'' :: unit pyval), (''p1'', PyStr ''b'')]
          \<lparr>hash_fields = [], db_file = NoFile\<rparr>) = Return 1
   \<and> fst (redis_batch_commit_impl rank [(''p1'', PyStr ''a'' :: unit pyval), (''p1'', PyStr ''b'')]
          \<lparr>hash_fields = [], db_file = NoFile\<rparr>)
       \<noteq> Return (int (length [(''p1'', PyStr ''a'' :: unit pyval), (''p1'', PyStr ''b'')]))
   \<and> fst (pickle_batch_commit_impl [(''p1'', PyStr ''a'' :: unit pyval), (''p1'', PyStr ''b'')] [])
       = Return 2
   \<and> batch_commit (RedisDatabase rank) real
          [(''p1'', PyStr ''a'' :: unit pyval), (''p1'', PyStr ''b'')]
          (new_database \<lparr>hash_fields = [], db_file = NoFile\<rparr>)
       = (Exit 1,
          (new_database
             \<lparr>hash_fields = [(''p1'', Pickled (PyStr ''b''))],
              db_file = Dump [(''p1'', Pickled (PyStr ''b''))]\<rparr>)
            \<lparr>logged := [(ERROR, ''Failed to commit results to the database'')],
             stdout := [''Error: Database connection error'']\<rparr>)
   \<and> fst (batch_commit PickleDatabase real
          [(''p1'', PyStr ''a'' :: unit pyval), (''p1'', PyStr ''b'')]
          (new_database [])) = Return ()"
  by (simp add: redis_batch_commit_impl_def Let_def dict_of_def pickle_dumps_def hmset_def
      hset_def redis_persist_def dump_db_def hgetall_def hkeys_def hget_def
      List.map_filter_simps batch_commit_def RedisDatabase_def new_database_def fatal_def
      print_line_def log_error_def PickleDatabase_def pickle_batch_commit_impl_def)

section \<open>Reading back what was written\<close>

text \<open>
  C6 (write visibility): on both adapters, after \<^verbatim>\<open>commit(k, r)\<close> has returned for a
  result \<open>r\<close>, \<^verbatim>\<open>query(k)\<close> returns \<open>r\<close> and changes nothing. For the Redis adapter this
  rests on \<^verbatim>\<open>pickle.loads(pickle.dumps(r)) = r\<close>, which the model of the pickled bytes
  builds in.
\<close>

theorem query_after_commit:
  "(fst (commit PickleDatabase clock key (PyResult r) pdb) = Return () \<longrightarrow>
      query PickleDatabase key (snd (commit PickleDatabase clock key (PyResult r) pdb))
        = (Return (Some (PyResult r)), snd (commit PickleDatabase clock key (PyResult r) pdb)))
   \<and> (fst (commit (RedisDatabase rank) clock key (PyResult r) rdb) = Return () \<longrightarrow>
      query (RedisDatabase rank) key (snd (commit (RedisDatabase rank) clock key (PyResult r) rdb))
        = (Return (Some (PyResult r)), snd (commit (RedisDatabase rank) clock key (PyResult r) rdb)))"
proof (intro conjI impI)
  let ?p = "snd (commit PickleDatabase clock key (PyResult r) pdb)"
  have "pickledb_get (database ?p) key = PyResult r"
    by (simp add: database_commit_pickle pickledb_get_set)
  then show "query PickleDatabase key ?p = (Return (Some (PyResult r)), ?p)"
    by (simp add: query_def run_read_def PickleDatabase_def pickle_query_def)
next
  let ?q = "snd (commit (RedisDatabase rank) clock key (PyResult r) rdb)"
  have "hget (database ?q) key = Some (Pickled (PyResult r))"
    by (simp add: database_commit_redis hget_persist hget_hset pickle_dumps_def)
  then show "query (RedisDatabase rank) key ?q = (Return (Some (PyResult r)), ?q)"
    by (simp add: query_def run_read_def RedisDatabase_def redis_query_def hexists_def hget_def
        redis_loads_guarded_def)
qed

theorem query_after_commit_witness:
  "fst (commit PickleDatabase real ''p1''
         (PyResult \<lparr>cls = HLSResult, point = Some (), ret_code = VALID, valid = True,
                    quality = 5, code_hash = None\<rparr>)
         (new_database [])) = Return ()
   \<and> fst (query PickleDatabase ''p1'' (snd (commit PickleDatabase real ''p1''
         (PyResult \<lparr>cls = HLSResult, point = Some (), ret_code = VALID, valid = True,
                    quality = 5, code_hash = None\<rparr>)
         (new_database []))))
       = Return (Some (PyResult \<lparr>cls = HLSResult, point = Some (), ret_code = VALID,
                    valid = True, quality = 5, code_hash = None\<rparr>))
   \<and> fst (commit (RedisDatabase (\<lambda>n key. 0)) real ''p1''
         (PyResult \<lparr>cls = HLSResult, point = Some (), ret_code = VALID, valid = True,
                    quality = 5, code_hash = None\<rparr>)
         (new_database \<lparr>hash_fields = [], db_file = NoFile\<rparr>)) = Return ()
   \<and> fst (query (RedisDatabase (\<lambda>n key. 0)) ''p1'' (snd (commit (RedisDatabase (\<lambda>n key. 0)) real ''p1''
         (PyResult \<lparr>cls = HLSResult, point = Some (), ret_code = VALID, valid = True,
                    quality = 5, code_hash = None\<rparr>)
         (new_database \<lparr>hash_fields = [], db_file = NoFile\<rparr>))))
       = Return (Some (PyResult \<lparr>cls = HLSResult, point = Some (), ret_code = VALID,
                    valid = True, quality = 5, code_hash = None\<rparr>))"
proof -
  let ?r = "\<lparr>cls = HLSResult, point = Some (), ret_code = VALID, valid = True,
                    quality = 5, code_hash = None\<rparr>"
  let ?pdb = "new_database [] :: (unit pickledb, unit) Database"
  let ?rdb = "new_database \<lparr>hash_fields = [], db_file = NoFile\<rparr> :: (unit redis, unit) Database"
  have p: "fst (commit PickleDatabase real ''p1'' (PyResult ?r) ?pdb) = Return ()"
    by (simp add: commit_def PickleDatabase_def pickle_commit_impl_def update_best_def
        read_clock_def pq_put_empty new_database_def)
  have q: "fst (commit (RedisDatabase (\<lambda>n key. 0)) real ''p1'' (PyResult ?r) ?rdb) = Return ()"
    by (simp add: commit_def RedisDatabase_def redis_commit_impl_def Let_def update_best_def
        read_clock_def pq_put_empty new_database_def)
  show ?thesis
    using p q
      query_after_commit [where clock = real and key = "''p1''" and r = ?r and pdb = ?pdb
        and rdb = ?rdb and rank = "\<lambda>n key. 0"]
    by simp
qed

section \<open>Rebuilding the code hash map\<close>

lemma redis_load_abc:
  "fst (redis_load rank point_key real
          (new_database \<lparr>hash_fields = [],
             db_file = Dump [(''p1'', Pickled (PyResult (merlin_abc ''p1'' 5))),
                             (''p2'', Pickled (PyResult (merlin_abc ''p2'' 3)))]\<rparr>)) = Return ()
   \<and> code_hash_map (snd (redis_load rank point_key real
          (new_database \<lparr>hash_fields = [],
             db_file = Dump [(''p1'', Pickled (PyResult (merlin_abc ''p1'' 5))),
                             (''p2'', Pickled (PyResult (merlin_abc ''p2'' 3)))]\<rparr>))) ''abc''
       = Some (last (query_keys_impl (RedisDatabase rank)
           \<lparr>hash_fields = [(''p1'', Pickled (PyResult (merlin_abc ''p1'' 5))),
                           (''p2'', Pickled (PyResult (merlin_abc ''p2'' 3)))],
            db_file = Dump [(''p1'', Pickled (PyResult (merlin_abc ''p1'' 5))),
                            (''p2'', Pickled (PyResult (merlin_abc ''p2'' 3)))]\<rparr>))"
  by (cases "rank 2 ''p1'' \<le> rank 2 ''p2''")
     (simp_all add: new_database_def bind_def log_info_def
      init_best_cache_def init_code_hash_map_def query_all_def batch_query_def run_read_def
      List.map_filter_def merlin_abc_def point_key_def
      redis_load_def redis_load_file_def hmset_def hset_def
      RedisDatabase_def redis_count_def redis_query_keys_def hkeys_def hgetall_def redis_batch_query_def
      hmget_def hget_def redis_loads_guarded_def)

text \<open>
  C2 (first writer wins on rebuild) does not hold of the code:
  \<^verbatim>\<open>init_code_hash_map\<close> assigns \<^verbatim>\<open>code_hash_map[code_hash] = key\<close> for every result it
  visits, so the last result with a given hash overwrites the earlier ones. A store
  that lists \<^verbatim>\<open>p1\<close> before \<^verbatim>\<open>p2\<close>, both with the hash \<^verbatim>\<open>"abc"\<close> and neither
  \<^verbatim>\<open>DUPLICATED\<close>, is loaded without error on either adapter and the map then names
  \<^verbatim>\<open>p2\<close>, while \<^verbatim>\<open>add_code_hash\<close> on the same two results in the same order keeps
  \<^verbatim>\<open>p1\<close>. On a Redis server that lists the two fields in whatever order, the load
  returns and the map names the key that the server lists last; on a server that
  lists \<^verbatim>\<open>p2\<close> first this is \<^verbatim>\<open>p1\<close>, and \<^verbatim>\<open>add_code_hash\<close> in that order keeps
  \<^verbatim>\<open>p2\<close>.
\<close>

theorem init_code_hash_map_last_writer_wins:
  "fst (pickle_load point_key real
          (new_database [(''p1'', PyJson (PyResult (merlin_abc ''p1'' 5))),
                         (''p2'', PyJson (PyResult (merlin_abc ''p2'' 3)))])) = Return ()
   \<and> code_hash_map (snd (pickle_load point_key real
          (new_database [(''p1'', PyJson (PyResult (merlin_abc ''p1'' 5))),
                         (''p2'', PyJson (PyResult (merlin_abc ''p2'' 3)))]))) ''abc''
       = Some ''p2''
   \<and> fst (redis_load (\<lambda>n key. 0) point_key real
          (new_database \<lparr>hash_fields = [],
             db_file = Dump [(''p1'', Pickled (PyResult (merlin_abc ''p1'' 5))),
                             (''p2'', Pickled (PyResult (merlin_abc ''p2'' 3)))]\<rparr>)) = Return ()
   \<and> code_hash_map (snd (redis_load (\<lambda>n key. 0) point_key real
          (new_database \<lparr>hash_fields = [],
             db_file = Dump [(''p1'', Pickled (PyResult (merlin_abc ''p1'' 5))),
                             (''p2'', Pickled (PyResult (merlin_abc ''p2'' 3)))]\<rparr>))) ''abc''
       = Some ''p2''
   \<and> code_hash_map (add_code_hash_calls [(''abc'', ''p1''), (''abc'', ''p2'')]
          (new_database [] :: (string pickledb, string) Database)) ''abc''
       = Some ''p1''
   \<and> fst (redis_load rank point_key real
          (new_database \<lparr>hash_fields = [],
             db_file = Dump [(''p1'', Pickled (PyResult (merlin_abc ''p1'' 5))),
                             (''p2'', Pickled (PyResult (merlin_abc ''p2'' 3)))]\<rparr>)) = Return ()
   \<and> code_hash_map (snd (redis_load rank point_key real
          (new_database \<lparr>hash_fields = [],
             db_file = Dump [(''p1'', Pickled (PyResult (merlin_abc ''p1'' 5))),
                             (''p2'', Pickled (PyResult (merlin_abc ''p2'' 3)))]\<rparr>))) ''abc''
       = Some (last (query_keys_impl (RedisDatabase rank)
           \<lparr>hash_fields = [(''p1'', Pickled (PyResult (merlin_abc ''p1'' 5))),
                           (''p2'', Pickled (PyResult (merlin_abc ''p2'' 3)))],
            db_file = Dump [(''p1'', Pickled (PyResult (merlin_abc ''p1'' 5))),
                            (''p2'', Pickled (PyResult (merlin_abc ''p2'' 3)))]\<rparr>))
   \<and> query_keys_impl (RedisDatabase (\<lambda>n key. if key = ''p2'' then 0 else 1))
          \<lparr>hash_fields = [(''p1'', Pickled (PyResult (merlin_abc ''p1'' 5))),
                          (''p2'', Pickled (PyResult (merlin_abc ''p2'' 3)))],
           db_file = Dump [(''p1'', Pickled (PyResult (merlin_abc ''p1'' 5))),
                           (''p2'', Pickled (PyResult (merlin_abc ''p2'' 3)))]\<rparr>
       = [''p2'', ''p1'']
   \<and> code_hash_map (snd (redis_load (\<lambda>n key. if key = ''p2'' then 0 else 1) point_key real
          (new_database \<lparr>hash_fields = [],
             db_file = Dump [(''p1'', Pickled (PyResult (merlin_abc ''p1'' 5))),
                             (''p2'', Pickled (PyResult (merlin_abc ''p2'' 3)))]\<rparr>))) ''abc''
       = Some ''p1''
   \<and> code_hash_map (add_code_hash_calls [(''abc'', ''p2''), (''abc'', ''p1'')]
          (new_database [] :: (string pickledb, string) Database)) ''abc''
       = Some ''p2''"
proof -
  have k0: "query_keys_impl (RedisDatabase (\<lambda>n key. 0))
          \<lparr>hash_fields = [(''p1'', Pickled (PyResult (merlin_abc ''p1'' 5))),
                          (''p2'', Pickled (PyResult (merlin_abc ''p2'' 3)))],
           db_file = Dump [(''p1'', Pickled (PyResult (merlin_abc ''p1'' 5))),
                           (''p2'', Pickled (PyResult (merlin_abc ''p2'' 3)))]\<rparr>
       = [''p1'', ''p2'']"
    by (simp add: RedisDatabase_def redis_query_keys_def hkeys_def hgetall_def)
  have k1: "query_keys_impl (RedisDatabase (\<lambda>n key. if key = ''p2'' then 0 else 1))
          \<lparr>hash_fields = [(''p1'', Pickled (PyResult (merlin_abc ''p1'' 5))),
                          (''p2'', Pickled (PyResult (merlin_abc ''p2'' 3)))],
           db_file = Dump [(''p1'', Pickled (PyResult (merlin_abc ''p1'' 5))),
                           (''p2'', Pickled (PyResult (merlin_abc ''p2'' 3)))]\<rparr>
       = [''p2'', ''p1'']"
    by (simp add: RedisDatabase_def redis_query_keys_def hkeys_def hgetall_def)
  have p: "fst (pickle_load point_key real
          (new_database [(''p1'', PyJson (PyResult (merlin_abc ''p1'' 5))),
                         (''p2'', PyJson (PyResult (merlin_abc ''p2'' 3)))])) = Return ()
   \<and> code_hash_map (snd (pickle_load point_key real
          (new_database [(''p1'', PyJson (PyResult (merlin_abc ''p1'' 5))),
                         (''p2'', PyJson (PyResult (merlin_abc ''p2'' 3)))]))) ''abc''
       = Some ''p2''"
    by (simp add: pickle_load_def pickle_load_data_def pickledb_getall_def pickledb_get_def
      pickledb_set_def new_database_def bind_def log_info_def
      init_best_cache_def init_code_hash_map_def query_all_def batch_query_def run_read_def
      PickleDatabase_def pickle_count_def pickle_query_keys_def pickle_batch_query_def
      List.map_filter_def merlin_abc_def point_key_def)
  have a: "code_hash_map (add_code_hash_calls [(''abc'', ''p1''), (''abc'', ''p2'')]
          (new_database [] :: (string pickledb, string) Database)) ''abc'' = Some ''p1''
     \<and> code_hash_map (add_code_hash_calls [(''abc'', ''p2''), (''abc'', ''p1'')]
          (new_database [] :: (string pickledb, string) Database)) ''abc'' = Some ''p2''"
    by (simp add: add_code_hash_def new_database_def)
  show ?thesis
    using p a k1 redis_load_abc [of rank] redis_load_abc [of "\<lambda>n key. 0"]
      redis_load_abc [of "\<lambda>n key. if key = ''p2'' then 0 else 1"]
    unfolding k0 k1 by simp
qed

section \<open>Reads that fail to deserialize\<close>

text \<open>
  C8 (degrade-to-null reads) does not hold of the code: \<^verbatim>\<open>RedisDatabase.query\<close> and
  \<^verbatim>\<open>RedisDatabase.batch_query\<close> catch \<^verbatim>\<open>ValueError\<close> only, and \<^verbatim>\<open>pickle.loads\<close> reports
  damaged bytes with \<^verbatim>\<open>UnpicklingError\<close>, which is not a \<^verbatim>\<open>ValueError\<close>. With a sound
  value under \<^verbatim>\<open>p1\<close> and damaged bytes under \<^verbatim>\<open>p2\<close>, \<^verbatim>\<open>query("p2")\<close> raises instead of
  returning \<^verbatim>\<open>None\<close>, and \<^verbatim>\<open>batch_query(["p1", "p2"])\<close> raises too, so the caller gets
  no answer for \<^verbatim>\<open>p1\<close> either. Nothing is logged.
\<close>

theorem redis_reads_raise_on_damaged_bytes:
  "query (RedisDatabase rank) ''p2''
      (new_database \<lparr>hash_fields = [(''p1'', Pickled (PyResult (merlin_abc ''p1'' 5))),
                                     (''p2'', Corrupt UnpicklingError)],
                      db_file = NoFile\<rparr>)
     = (Raise UnpicklingError,
        new_database \<lparr>hash_fields = [(''p1'', Pickled (PyResult (merlin_abc ''p1'' 5))),
                                     (''p2'', Corrupt UnpicklingError)],
                      db_file = NoFile\<rparr>)
   \<and> batch_query (RedisDatabase rank) [''p1'', ''p2'']
      (new_database \<lparr>hash_fields = [(''p1'', Pickled (PyResult (merlin_abc ''p1'' 5))),
                                     (''p2'', Corrupt UnpicklingError)],
                      db_file = NoFile\<rparr>)
     = (Raise UnpicklingError,
        new_database \<lparr>hash_fields = [(''p1'', Pickled (PyResult (merlin_abc ''p1'' 5))),
                                     (''p2'', Corrupt UnpicklingError)],
                      db_file = NoFile\<rparr>)
   \<and> query (RedisDatabase rank) ''p1''
      (new_database \<lparr>hash_fields = [(''p1'', Pickled (PyResult (merlin_abc ''p1'' 5))),
                                     (''p2'', Corrupt UnpicklingError)],
                      db_file = NoFile\<rparr>)
     = (Return (Some (PyResult (merlin_abc ''p1'' 5))),
        new_database \<lparr>hash_fields = [(''p1'', Pickled (PyResult (merlin_abc ''p1'' 5))),
                                     (''p2'', Corrupt UnpicklingError)],
                      db_file = NoFile\<rparr>)"
  by (simp add: query_def batch_query_def run_read_def RedisDatabase_def redis_query_def
      redis_batch_query_def hexists_def hget_def hmget_def redis_loads_guarded_def
      new_database_def)

text \<open>
  What the two methods do handle: a key the hash does not hold, empty bytes, and bytes
  on which \<^verbatim>\<open>pickle.loads\<close> raises \<^verbatim>\<open>ValueError\<close> all give \<^verbatim>\<open>None\<close> for that key, and the
  other keys of a batch keep their answers.
\<close>

lemma redis_batch_loop_value_error:
  "\<forall>(k, b) \<in> set zs. \<forall>e. b = Some (Corrupt e) \<longrightarrow> e = ValueError \<Longrightarrow>
   fst (redis_batch_loop zs data msgs)
     = Return (data @ map (\<lambda>(k, b). case b of Some (Pickled v) \<Rightarrow> Some v | _ \<Rightarrow> None) zs)"
proof (induction zs arbitrary: data msgs)
  case Nil
  then show ?case by simp
next
  case (Cons z zs)
  obtain k b where z: "z = (k, b)" by (cases z)
  have rest: "\<forall>(k, b) \<in> set zs. \<forall>e. b = Some (Corrupt e) \<longrightarrow> e = ValueError"
    using Cons.prems by simp
  show ?case
  proof (cases b)
    case None
    then show ?thesis using z Cons.IH [OF rest] by simp
  next
    case (Some bl)
    show ?thesis
    proof (cases bl)
      case (Pickled v)
      then show ?thesis using z Some Cons.IH [OF rest] by (simp add: redis_loads_guarded_def)
    next
      case EmptyBytes
      then show ?thesis using z Some Cons.IH [OF rest] by simp
    next
      case (Corrupt e)
      then have "e = ValueError" using Cons.prems z Some by simp
      then show ?thesis
        using z Some Corrupt Cons.IH [OF rest] by (simp add: redis_loads_guarded_def)
    qed
  qed
qed

section \<open>Results marked as duplicated\<close>

lemma hls_valid_results_mem:
  "r \<in> set (hls_valid_results vs) \<Longrightarrow> PyResult r \<in> set vs \<and> cls r = HLSResult \<and> valid r"
  by (induction vs rule: hls_valid_results.induct) (auto split: if_splits)

lemma merlin_results_mem:
  "r \<in> set (merlin_results vs) \<Longrightarrow> PyResult r \<in> set vs \<and> cls r = MerlinResult"
  by (induction vs rule: merlin_results.induct) (auto split: if_splits)

lemma init_best_loop_entries:
  "e \<in> set (best_cache (snd (init_best_loop clock rs db))) \<Longrightarrow>
   e \<in> set (best_cache db)
   \<or> (entry_result e \<in> set rs \<and> ret_code (entry_result e) \<noteq> DUPLICATED)"
proof (induction rs arbitrary: db)
  case Nil
  then show ?case by simp
next
  case (Cons r rs)
  show ?case
  proof (cases "ret_code r \<noteq> DUPLICATED")
    case False
    then show ?thesis using Cons.prems Cons.IH [of db] by auto
  next
    case True
    let ?db1 = "db\<lparr>ticks := Suc (ticks db)\<rparr>"
    let ?new = "(quality r, clock (ticks db), r)"
    obtain err q where p: "pq_put ?new (best_cache db) = (err, q)"
      by (cases "pq_put ?new (best_cache db)")
    have q: "set q = insert ?new (set (best_cache db))"
      using set_pq_put [of ?new "best_cache db"] p by simp
    show ?thesis
    proof (cases err)
      case None
      from p None True Cons.prems
      have "e \<in> set (best_cache (snd (init_best_loop clock rs (?db1\<lparr>best_cache := q\<rparr>))))"
        by (simp add: read_clock_def)
      from Cons.IH [OF this]
      show ?thesis using q True by (auto simp: entry_result_def)
    next
      case (Some x)
      from p Some True Cons.prems have "e \<in> set q" by (simp add: read_clock_def)
      then show ?thesis using q True by (auto simp: entry_result_def)
    qed
  qed
qed

lemma init_best_loop_skips_duplicated:
  "init_best_loop clock (filter (\<lambda>r. ret_code r \<noteq> DUPLICATED) rs) db = init_best_loop clock rs db"
proof (induction rs arbitrary: db)
  case Nil
  then show ?case by simp
next
  case (Cons r rs)
  then show ?case by (simp add: read_clock_def split: prod.splits option.splits)
qed

lemma init_code_hash_loop_skips_duplicated:
  "init_code_hash_loop gen_key (filter (\<lambda>r. ret_code r \<noteq> DUPLICATED) rs) db
     = init_code_hash_loop gen_key rs db"
proof (induction rs arbitrary: db)
  case Nil
  then show ?case by simp
next
  case (Cons r rs)
  then show ?case by (simp split: option.splits)
qed

lemma init_code_hash_loop_origin:
  "code_hash_map (snd (init_code_hash_loop gen_key rs db)) h = Some k \<Longrightarrow>
   code_hash_map db h = Some k
   \<or> (\<exists>r \<in> set rs. ret_code r \<noteq> DUPLICATED \<and> code_hash r = Some h
         \<and> map_option gen_key (point r) = Some k)"
proof (induction rs arbitrary: db)
  case Nil
  then show ?case by simp
next
  case (Cons r rs)
  show ?case
  proof (cases "code_hash r")
    case None
    then show ?thesis using Cons.prems Cons.IH [of db] by auto
  next
    case (Some h')
    show ?thesis
    proof (cases "ret_code r \<noteq> DUPLICATED")
      case False
      then show ?thesis using Some Cons.prems Cons.IH [of db] by auto
    next
      case True
      show ?thesis
      proof (cases "point r")
        case None
        then show ?thesis using Some True Cons.prems by simp
      next
        case (Some p)
        let ?db1 = "db\<lparr>code_hash_map := (code_hash_map db)(h' \<mapsto> gen_key p)\<rparr>"
        from Some \<open>code_hash r = Some h'\<close> True Cons.prems
        have "code_hash_map (snd (init_code_hash_loop gen_key rs ?db1)) h = Some k" by simp
        from Cons.IH [OF this]
        show ?thesis
          using Some \<open>code_hash r = Some h'\<close> True by (auto split: if_splits)
      qed
    qed
  qed
qed

lemma init_best_cache_entries:
  assumes "e \<in> set (best_cache (snd (init_best_cache A clock db)))"
  shows "e \<in> set (best_cache db) \<or> ret_code (entry_result e) \<noteq> DUPLICATED"
proof (cases "count_impl A (database db) = 0")
  case True
  then show ?thesis using assms by (simp add: init_best_cache_def)
next
  case False
  obtain out db1 where q: "query_all A db = (out, db1)" by (cases "query_all A db")
  have f: "best_cache db1 = best_cache db" using query_all_frame(2) [of A db] q by simp
  show ?thesis
  proof (cases out)
    case (Return vs)
    with False q assms
    have "e \<in> set (best_cache (snd (init_best_loop clock (hls_valid_results vs) db1)))"
      by (simp add: init_best_cache_def bind_def)
    from init_best_loop_entries [OF this] f show ?thesis by auto
  next
    case (Raise x)
    with False q assms f show ?thesis by (simp add: init_best_cache_def bind_def)
  next
    case (Exit n)
    with False q assms f show ?thesis by (simp add: init_best_cache_def bind_def)
  qed
qed

lemma init_code_hash_map_origin:
  assumes "code_hash_map (snd (init_code_hash_map A gen_key db)) h = Some k"
  shows "code_hash_map db h = Some k
     \<or> (\<exists>vs r. fst (query_all A db) = Return vs \<and> PyResult r \<in> set vs
           \<and> cls r = MerlinResult \<and> ret_code r \<noteq> DUPLICATED \<and> code_hash r = Some h
           \<and> map_option gen_key (point r) = Some k)"
proof (cases "count_impl A (database db) = 0")
  case True
  then show ?thesis using assms by (simp add: init_code_hash_map_def)
next
  case False
  obtain out db1 where q: "query_all A db = (out, db1)" by (cases "query_all A db")
  have f: "code_hash_map db1 = code_hash_map db" using query_all_frame(3) [of A db] q by simp
  show ?thesis
  proof (cases out)
    case (Return vs)
    with False q assms
    have "code_hash_map (snd (init_code_hash_loop gen_key (merlin_results vs) db1)) h = Some k"
      by (simp add: init_code_hash_map_def bind_def)
    from init_code_hash_loop_origin [OF this]
    show ?thesis using f q Return by (auto dest: merlin_results_mem)
  next
    case (Raise x)
    with False q assms f show ?thesis by (simp add: init_code_hash_map_def bind_def)
  next
    case (Exit n)
    with False q assms f show ?thesis by (simp add: init_code_hash_map_def bind_def)
  qed
qed

lemma update_best_duplicated:
  "ret_code r = DUPLICATED \<Longrightarrow> update_best clock r db = (Return (), db)"
  by (simp add: update_best_def)

text \<open>
  C5 (duplicated exclusion). For a result \<open>r\<close> with the return code \<^verbatim>\<open>DUPLICATED\<close>:
  \<^verbatim>\<open>update_best\<close> does nothing; a \<^verbatim>\<open>commit\<close> whose write succeeded changes the adapter's
  handle only, and on both adapters \<^verbatim>\<open>query\<close> then returns \<open>r\<close>. Whatever the store
  holds, every entry that \<^verbatim>\<open>init_best_cache\<close> or \<^verbatim>\<open>batch_commit\<close> adds to the best cache
  carries a result that is not \<^verbatim>\<open>DUPLICATED\<close>, every hash that \<^verbatim>\<open>init_code_hash_map\<close>
  records comes from a stored \<^verbatim>\<open>MerlinResult\<close> that is not \<^verbatim>\<open>DUPLICATED\<close>, and
  both rebuilding loops run as if the \<^verbatim>\<open>DUPLICATED\<close> results were not in their list.
\<close>

theorem duplicated_results_are_excluded:
  "(ret_code r = DUPLICATED \<longrightarrow> update_best clock r db = (Return (), db))
   \<and> (ret_code r = DUPLICATED \<and> commit_impl A key (PyResult r) (database db) = (Return True, b)
        \<longrightarrow> commit A clock key (PyResult r) db = (Return (), db\<lparr>database := b\<rparr>))
   \<and> (ret_code r = DUPLICATED \<longrightarrow>
        fst (commit PickleDatabase clock key (PyResult r) pdb) = Return ()
        \<and> best_cache (snd (commit PickleDatabase clock key (PyResult r) pdb)) = best_cache pdb
        \<and> code_hash_map (snd (commit PickleDatabase clock key (PyResult r) pdb))
            = code_hash_map pdb
        \<and> fst (query PickleDatabase key (snd (commit PickleDatabase clock key (PyResult r) pdb)))
            = Return (Some (PyResult r))
        \<and> fst (commit (RedisDatabase rank) clock key (PyResult r) rdb) = Return ()
        \<and> best_cache (snd (commit (RedisDatabase rank) clock key (PyResult r) rdb)) = best_cache rdb
        \<and> code_hash_map (snd (commit (RedisDatabase rank) clock key (PyResult r) rdb))
            = code_hash_map rdb
        \<and> fst (query (RedisDatabase rank) key (snd (commit (RedisDatabase rank) clock key (PyResult r) rdb)))
            = Return (Some (PyResult r)))
   \<and> (\<forall>e \<in> set (best_cache (snd (init_best_cache A clock db))).
        e \<in> set (best_cache db) \<or> ret_code (entry_result e) \<noteq> DUPLICATED)
   \<and> (\<forall>e \<in> set (best_cache (snd (batch_commit A clock pairs db))).
        e \<in> set (best_cache db) \<or> ret_code (entry_result e) \<noteq> DUPLICATED)
   \<and> (\<forall>h k. code_hash_map (snd (init_code_hash_map A gen_key db)) h = Some k \<longrightarrow>
        code_hash_map db h = Some k
        \<or> (\<exists>vs s. fst (query_all A db) = Return vs \<and> PyResult s \<in> set vs
              \<and> cls s = MerlinResult \<and> ret_code s \<noteq> DUPLICATED \<and> code_hash s = Some h
              \<and> map_option gen_key (point s) = Some k))
   \<and> init_best_loop clock (filter (\<lambda>r. ret_code r \<noteq> DUPLICATED) rs) db
        = init_best_loop clock rs db
   \<and> init_code_hash_loop gen_key (filter (\<lambda>r. ret_code r \<noteq> DUPLICATED) rs) db
        = init_code_hash_loop gen_key rs db"
proof -
  have a: "update_best clock r db = (Return (), db)" if "ret_code r = DUPLICATED"
    using that by (rule update_best_duplicated)
  have b: "commit A clock key (PyResult r) db = (Return (), db\<lparr>database := b\<rparr>)"
    if "ret_code r = DUPLICATED \<and> commit_impl A key (PyResult r) (database db) = (Return True, b)"
    using that by (simp add: commit_def update_best_duplicated)
  have pc: "commit PickleDatabase clock key (PyResult r) pdb
              = (Return (), pdb\<lparr>database := pickledb_set key (PyResult r) (database pdb)\<rparr>)"
    if "ret_code r = DUPLICATED"
    using that
    by (simp add: commit_def PickleDatabase_def pickle_commit_impl_def update_best_duplicated)
  have rc: "commit (RedisDatabase rank) clock key (PyResult r) rdb
              = (Return (),
                 rdb\<lparr>database := snd (redis_persist rank (hset key (pickle_dumps (PyResult r))
                                                         (database rdb)))\<rparr>)"
    if "ret_code r = DUPLICATED"
    using that
    by (simp add: commit_def RedisDatabase_def redis_commit_impl_def Let_def
        update_best_duplicated)
  have "pickledb_get (database (snd (commit PickleDatabase clock key (PyResult r) pdb))) key
          = PyResult r"
    by (simp add: database_commit_pickle pickledb_get_set)
  then have pq: "fst (query PickleDatabase key (snd (commit PickleDatabase clock key (PyResult r) pdb)))
              = Return (Some (PyResult r))"
    by (simp add: query_def run_read_def PickleDatabase_def pickle_query_def)
  have "hget (database (snd (commit (RedisDatabase rank) clock key (PyResult r) rdb))) key
          = Some (Pickled (PyResult r))"
    by (simp add: database_commit_redis hget_persist hget_hset pickle_dumps_def)
  then have rq: "fst (query (RedisDatabase rank) key (snd (commit (RedisDatabase rank) clock key (PyResult r) rdb)))
              = Return (Some (PyResult r))"
    by (simp add: query_def run_read_def RedisDatabase_def redis_query_def hexists_def hget_def
        redis_loads_guarded_def)
  have c: "ret_code r = DUPLICATED \<longrightarrow>
        fst (commit PickleDatabase clock key (PyResult r) pdb) = Return ()
        \<and> best_cache (snd (commit PickleDatabase clock key (PyResult r) pdb)) = best_cache pdb
        \<and> code_hash_map (snd (commit PickleDatabase clock key (PyResult r) pdb))
            = code_hash_map pdb
        \<and> fst (query PickleDatabase key (snd (commit PickleDatabase clock key (PyResult r) pdb)))
            = Return (Some (PyResult r))
        \<and> fst (commit (RedisDatabase rank) clock key (PyResult r) rdb) = Return ()
        \<and> best_cache (snd (commit (RedisDatabase rank) clock key (PyResult r) rdb)) = best_cache rdb
        \<and> code_hash_map (snd (commit (RedisDatabase rank) clock key (PyResult r) rdb))
            = code_hash_map rdb
        \<and> fst (query (RedisDatabase rank) key (snd (commit (RedisDatabase rank) clock key (PyResult r) rdb)))
            = Return (Some (PyResult r))"
  proof
    assume dup: "ret_code r = DUPLICATED"
    show "fst (commit PickleDatabase clock key (PyResult r) pdb) = Return ()
        \<and> best_cache (snd (commit PickleDatabase clock key (PyResult r) pdb)) = best_cache pdb
        \<and> code_hash_map (snd (commit PickleDatabase clock key (PyResult r) pdb))
            = code_hash_map pdb
        \<and> fst (query PickleDatabase key (snd (commit PickleDatabase clock key (PyResult r) pdb)))
            = Return (Some (PyResult r))
        \<and> fst (commit (RedisDatabase rank) clock key (PyResult r) rdb) = Return ()
        \<and> best_cache (snd (commit (RedisDatabase rank) clock key (PyResult r) rdb)) = best_cache rdb
        \<and> code_hash_map (snd (commit (RedisDatabase rank) clock key (PyResult r) rdb))
            = code_hash_map rdb
        \<and> fst (query (RedisDatabase rank) key (snd (commit (RedisDatabase rank) clock key (PyResult r) rdb)))
            = Return (Some (PyResult r))"
      by (intro conjI pq rq) (simp_all add: pc [OF dup] rc [OF dup])
  qed
  have d: "\<forall>e \<in> set (best_cache (snd (init_best_cache A clock db))).
        e \<in> set (best_cache db) \<or> ret_code (entry_result e) \<noteq> DUPLICATED"
    using init_best_cache_entries by blast
  have e: "\<forall>e \<in> set (best_cache (snd (batch_commit A clock pairs db))).
        e \<in> set (best_cache db) \<or> ret_code (entry_result e) \<noteq> DUPLICATED"
  proof
    fix e
    assume m: "e \<in> set (best_cache (snd (batch_commit A clock pairs db)))"
    obtain out b where w: "batch_commit_impl A pairs (database db) = (out, b)"
      by (cases "batch_commit_impl A pairs (database db)")
    show "e \<in> set (best_cache db) \<or> ret_code (entry_result e) \<noteq> DUPLICATED"
    proof (cases "out = Return (int (length pairs))")
      case True
      with w m have "e \<in> set (best_cache (snd (update_best_loop clock pairs (db\<lparr>database := b\<rparr>))))"
        by (simp add: batch_commit_def)
      from update_best_loop_entries [OF this] show ?thesis by auto
    next
      case False
      with w m show ?thesis
        by (cases out)
           (simp_all add: batch_commit_def fatal_def print_line_def log_error_def)
    qed
  qed
  have f: "\<forall>h k. code_hash_map (snd (init_code_hash_map A gen_key db)) h = Some k \<longrightarrow>
        code_hash_map db h = Some k
        \<or> (\<exists>vs s. fst (query_all A db) = Return vs \<and> PyResult s \<in> set vs
              \<and> cls s = MerlinResult \<and> ret_code s \<noteq> DUPLICATED \<and> code_hash s = Some h
              \<and> map_option gen_key (point s) = Some k)"
    using init_code_hash_map_origin by blast
  have ab: "(ret_code r = DUPLICATED \<longrightarrow> update_best clock r db = (Return (), db))
   \<and> (ret_code r = DUPLICATED \<and> commit_impl A key (PyResult r) (database db) = (Return True, b)
        \<longrightarrow> commit A clock key (PyResult r) db = (Return (), db\<lparr>database := b\<rparr>))"
    using a b by blast
  show ?thesis
    using ab c d e f init_best_loop_skips_duplicated [of clock rs db]
      init_code_hash_loop_skips_duplicated [of gen_key rs db]
    by (intro conjI) blast+
qed

theorem duplicated_results_are_excluded_witness:
  "ret_code (hls_result ''p2'' 3 DUPLICATED) = DUPLICATED
   \<and> commit_impl PickleDatabase ''p2'' (PyResult (hls_result ''p2'' 3 DUPLICATED))
        [(''p1'', PyResult (hls_result ''p1'' 5 VALID))]
       = (Return True, [(''p1'', PyResult (hls_result ''p1'' 5 VALID)),
                        (''p2'', PyResult (hls_result ''p2'' 3 DUPLICATED))])
   \<and> commit PickleDatabase real ''p2'' (PyResult (hls_result ''p2'' 3 DUPLICATED))
        (new_database [(''p1'', PyResult (hls_result ''p1'' 5 VALID))])
       = (Return (),
          (new_database [(''p1'', PyResult (hls_result ''p1'' 5 VALID))])
            \<lparr>database := [(''p1'', PyResult (hls_result ''p1'' 5 VALID)),
                          (''p2'', PyResult (hls_result ''p2'' 3 DUPLICATED))]\<rparr>)
   \<and> fst (query PickleDatabase ''p2''
        (snd (commit PickleDatabase real ''p2'' (PyResult (hls_result ''p2'' 3 DUPLICATED))
               (new_database [(''p1'', PyResult (hls_result ''p1'' 5 VALID))]))))
       = Return (Some (PyResult (hls_result ''p2'' 3 DUPLICATED)))
   \<and> fst (query (RedisDatabase (\<lambda>n key. 0)) ''p2''
        (snd (commit (RedisDatabase (\<lambda>n key. 0)) real ''p2'' (PyResult (hls_result ''p2'' 3 DUPLICATED))
               (new_database \<lparr>hash_fields = [], db_file = NoFile\<rparr>))))
       = Return (Some (PyResult (hls_result ''p2'' 3 DUPLICATED)))
   \<and> best_cache (snd (init_best_cache PickleDatabase real
        (new_database [(''p1'', PyResult (hls_result ''p1'' 5 VALID)),
                       (''p2'', PyResult (hls_result ''p2'' 3 DUPLICATED)),
                       (''p3'', PyResult ((merlin_abc ''p3'' 1)\<lparr>ret_code := DUPLICATED\<rparr>))])))
       = [(5, 0, hls_result ''p1'' 5 VALID)]
   \<and> code_hash_map (snd (init_code_hash_map PickleDatabase point_key
        (new_database [(''p1'', PyResult (hls_result ''p1'' 5 VALID)),
                       (''p2'', PyResult (hls_result ''p2'' 3 DUPLICATED)),
                       (''p3'', PyResult ((merlin_abc ''p3'' 1)\<lparr>ret_code := DUPLICATED\<rparr>))])))
       = Map.empty"
proof -
  let ?dup = "hls_result ''p2'' 3 DUPLICATED"
  let ?ok = "hls_result ''p1'' 5 VALID"
  let ?db = "new_database [(''p1'', PyResult ?ok)] :: (string pickledb, string) Database"
  let ?rdb = "new_database \<lparr>hash_fields = [], db_file = NoFile\<rparr> :: (string redis, string) Database"
  let ?full = "new_database [(''p1'', PyResult ?ok), (''p2'', PyResult ?dup),
      (''p3'', PyResult ((merlin_abc ''p3'' 1)\<lparr>ret_code := DUPLICATED\<rparr>))]
      :: (string pickledb, string) Database"
  have d: "ret_code ?dup = DUPLICATED" by (simp add: hls_result_def)
  have w': "commit_impl PickleDatabase ''p2'' (PyResult ?dup) [(''p1'', PyResult ?ok)]
       = (Return True, [(''p1'', PyResult ?ok), (''p2'', PyResult ?dup)])"
    by (simp add: PickleDatabase_def pickle_commit_impl_def pickledb_set_def)
  then have w: "commit_impl PickleDatabase ''p2'' (PyResult ?dup) (database ?db)
       = (Return True, [(''p1'', PyResult ?ok), (''p2'', PyResult ?dup)])"
    by (simp add: new_database_def)
  have i: "best_cache (snd (init_best_cache PickleDatabase real ?full)) = [(5, 0, ?ok)]"
    by (simp add: init_best_cache_def query_all_def batch_query_def run_read_def bind_def
        PickleDatabase_def pickle_count_def pickle_query_keys_def pickle_batch_query_def
        pickledb_getall_def pickledb_get_def List.map_filter_def new_database_def
        hls_result_def merlin_abc_def read_clock_def pq_put_empty)
  have m: "code_hash_map (snd (init_code_hash_map PickleDatabase point_key ?full)) = Map.empty"
    by (simp add: init_code_hash_map_def query_all_def batch_query_def run_read_def bind_def
        PickleDatabase_def pickle_count_def pickle_query_keys_def pickle_batch_query_def
        pickledb_getall_def pickledb_get_def List.map_filter_def new_database_def
        hls_result_def merlin_abc_def)
  note T = duplicated_results_are_excluded [where r = ?dup and clock = real and db = ?db
        and A = PickleDatabase and key = "''p2''"
        and b = "[(''p1'', PyResult ?ok), (''p2'', PyResult ?dup)]"
        and pdb = ?db and rdb = ?rdb and rank = "\<lambda>n key. 0"]
  from T d w have c: "commit PickleDatabase real ''p2'' (PyResult ?dup) ?db
       = (Return (), ?db\<lparr>database := [(''p1'', PyResult ?ok), (''p2'', PyResult ?dup)]\<rparr>)"
    by blast
  from T d have q1: "fst (query PickleDatabase ''p2''
        (snd (commit PickleDatabase real ''p2'' (PyResult ?dup) ?db)))
       = Return (Some (PyResult ?dup))"
    by blast
  from T d have q2: "fst (query (RedisDatabase (\<lambda>n key. 0)) ''p2''
        (snd (commit (RedisDatabase (\<lambda>n key. 0)) real ''p2'' (PyResult ?dup) ?rdb)))
       = Return (Some (PyResult ?dup))"
    by blast
  show ?thesis
    by (intro conjI d w' c q1 q2 i m)
qed

section \<open>Inserting into the best cache\<close>

text \<open>
  C3 (best-cache ordering) does not hold of the code. The comment at the queue says
  that the timestamp is there "to deal with points with same qualities" and that "the
  first point among the same quality points is the one we want"; \<^verbatim>\<open>update_best\<close>
  takes the timestamp from \<^verbatim>\<open>time()\<close>, the wall clock, whose readings need not
  increase. When the clock is set back between two calls (readings 2, then 1) the
  second insertion gets the smaller timestamp, and of two results of quality 5 the
  one inserted later is drained first. When the clock gives the same reading to two
  calls, the second put compares the two result objects, and \<^verbatim>\<open>update_best\<close> raises
  \<^verbatim>\<open>RuntimeError\<close>.
\<close>

theorem best_cache_order_fails_when_clock_set_back:
  "update_best_calls clock_set_back
        [hls_result ''p1'' 5 VALID, hls_result ''p2'' 5 VALID]
        (new_database () :: (unit, string) Database)
     = (Return (),
        (new_database ())
          \<lparr>best_cache := [(5, 1, hls_result ''p2'' 5 VALID), (5, 2, hls_result ''p1'' 5 VALID)],
           ticks := 2\<rparr>)
   \<and> clock_set_back 0 = 2 \<and> clock_set_back 1 = 1
   \<and> drain (cache_after clock_set_back
        [hls_result ''p1'' 5 VALID, hls_result ''p2'' 5 VALID]
        (new_database () :: (unit, string) Database))
       = Inr [(5, 1, hls_result ''p2'' 5 VALID), (5, 2, hls_result ''p1'' 5 VALID)]
   \<and> map_sum id (map entry_result) (drain (cache_after clock_set_back
        [hls_result ''p1'' 5 VALID, hls_result ''p2'' 5 VALID]
        (new_database () :: (unit, string) Database)))
       = Inr [hls_result ''p2'' 5 VALID, hls_result ''p1'' 5 VALID]
   \<and> update_best_calls clock_stalled
        [hls_result ''p1'' 5 VALID, hls_result ''p2'' 5 VALID]
        (new_database () :: (unit, string) Database)
     = (Raise RuntimeError,
        (new_database ())
          \<lparr>best_cache := [(5, 1, hls_result ''p1'' 5 VALID), (5, 1, hls_result ''p2'' 5 VALID)],
           logged := [(ERROR, ''Failed to update best cache: %s'')],
           ticks := 2\<rparr>)"
proof -
  let ?rs = "[hls_result ''p1'' 5 VALID, hls_result ''p2'' 5 VALID]"
  let ?db = "new_database () :: (unit, string) Database"
  have run: "update_best_calls clock_set_back ?rs ?db
      = (Return (),
         ?db\<lparr>best_cache := [(5, 1, hls_result ''p2'' 5 VALID), (5, 2, hls_result ''p1'' 5 VALID)],
             ticks := 2\<rparr>)"
    by (simp add: update_best_def read_clock_def pq_put_def heappush_def siftdown.simps
        tuple_lt_def clock_set_back_def entry_quality_def entry_time_def bind_def hls_result_def
        new_database_def)
  have c: "cache_after clock_set_back ?rs ?db
       = [(5, 1, hls_result ''p2'' 5 VALID), (5, 2, hls_result ''p1'' 5 VALID)]"
    unfolding cache_after_def run by simp
  have d: "drain [(5, 1, hls_result ''p2'' 5 VALID), (5, 2, hls_result ''p1'' 5 VALID)]
       = Inr [(5, 1, hls_result ''p2'' 5 VALID), (5, 2, hls_result ''p1'' 5 VALID)]"
    by (simp add: drain.simps pq_get_def heappop_def siftup.simps siftdown.simps)
  have s: "update_best_calls clock_stalled ?rs ?db
     = (Raise RuntimeError,
        ?db\<lparr>best_cache := [(5, 1, hls_result ''p1'' 5 VALID), (5, 1, hls_result ''p2'' 5 VALID)],
            logged := [(ERROR, ''Failed to update best cache: %s'')],
            ticks := 2\<rparr>)"
    by (simp add: update_best_def read_clock_def pq_put_def heappush_def siftdown.simps
        tuple_lt_def clock_stalled_def entry_quality_def entry_time_def bind_def hls_result_def
        new_database_def log_error_def)
  show ?thesis
    unfolding c d run s by (simp add: clock_set_back_def entry_result_def)
qed

section \<open>Persisting and loading the PickleDB store\<close>











section \<open>Rebuilding against committing\<close>
















section \<open>Loading the Redis dump\<close>






lemma mset_listed: "mset (listed rank kvs) = mset kvs"
  by (simp add: listed_def)




lemma distinct_listed: "distinct (map fst (listed rank kvs)) = distinct (map fst kvs)"
proof -
  have "mset (map fst (listed rank kvs)) = mset (map fst kvs)" by (simp add: mset_listed)
  then show ?thesis by (rule mset_eq_imp_distinct_iff)
qed




















end
